theory Spec2Isabelle
  imports Complex_Main
begin

text \<open>
  The leads routes of \<open>routes/leads.js\<close>: the filter builder \<open>buildWhereClause\<close> and the
  five handlers \<open>GET /leads\<close>, \<open>GET /leads/:id\<close>, \<open>POST /leads\<close>, \<open>PUT /leads/:id\<close> and
  \<open>DELETE /leads/:id\<close>, over the \<open>leads\<close> table that \<open>initDatabase\<close> creates. First the
  program, then what is proved of it.
\<close>

section \<open>JavaScript strings and the builtins the routes use\<close>

text \<open>
  A JavaScript string is modelled as a \<^typ>\<open>string\<close> whose characters are the
  UTF-16 code units below 256 (Latin-1). On these strings \<open>trim\<close>, \<open>toLowerCase\<close>,
  \<open>split(',')\<close> and template interpolation are what is written below.
  A query string is a flat mapping from parameter names to string values, as section 4.1
  of the specification has it; a key that is absent reads as \<open>undefined\<close>, here \<open>None\<close>.
\<close>

type_synonym query = "string \<rightharpoonup> string"

definition is_digit :: "char \<Rightarrow> bool" where
  "is_digit c = (48 \<le> (of_char c :: nat) \<and> (of_char c :: nat) \<le> 57)"

definition digit_val :: "char \<Rightarrow> nat" where
  "digit_val c = of_char c - 48"

definition digit_char :: "nat \<Rightarrow> char" where
  "digit_char d = ''0123456789'' ! d"

text \<open>The decimal text a template literal gives a non-negative integer: \<open>`${i}`\<close>.\<close>

fun show_nat :: "nat \<Rightarrow> string" where
  "show_nat n = (if n < 10 then [digit_char n] else show_nat (n div 10) @ [digit_char (n mod 10)])"

declare show_nat.simps [simp del]

definition read_nat :: "string \<Rightarrow> nat" where
  "read_nat ds = foldl (\<lambda>a c. 10 * a + digit_val c) 0 ds"

text \<open>White space and line terminators of ECMAScript that are code units below 256.\<close>

definition is_space :: "char \<Rightarrow> bool" where
  "is_space c = ((of_char c :: nat) \<in> {9, 10, 11, 12, 13, 32, 160})"

definition trim :: "string \<Rightarrow> string" where
  "trim s = rev (dropWhile is_space (rev (dropWhile is_space s)))"

definition lower_char :: "char \<Rightarrow> char" where
  "lower_char c =
     (let n = (of_char c :: nat)
      in if (65 \<le> n \<and> n \<le> 90) \<or> (192 \<le> n \<and> n \<le> 222 \<and> n \<noteq> 215)
         then char_of (n + 32) else c)"

definition toLowerCase :: "string \<Rightarrow> string" where
  "toLowerCase s = map lower_char s"

text \<open>\<open>s.split(',')\<close>: never empty; the empty string splits into one empty part.\<close>

fun split_comma :: "string \<Rightarrow> string list" where
  "split_comma [] = [[]]"
| "split_comma (c # cs) =
     (if c = CHR '','' then [] # split_comma cs
      else (case split_comma cs of [] \<Rightarrow> [[c]] | p # ps \<Rightarrow> (c # p) # ps))"

text \<open>\<open>parts.join(sep)\<close>.\<close>

fun join :: "string \<Rightarrow> string list \<Rightarrow> string" where
  "join sep [] = []"
| "join sep [p] = p"
| "join sep (p # q # ps) = p @ sep @ join sep (q # ps)"

section \<open>Values bound to statements\<close>

text \<open>
  A JavaScript number is \<open>NaN\<close> or a value; the infinities and the rounding to a double
  are not modelled, so integers are exact. \<open>Number(s)\<close> is a builtin of the language, not
  code of the routes: it is a parameter \<open>Number :: string \<Rightarrow> jsnum\<close> of everything that calls
  it.
\<close>

datatype jsnum = NaN | Fin rat

text \<open>
  The values of a JSON request body and the values handed to \<open>pool.query\<close>.
  \<open>UserId u\<close> is \<open>req.user.id\<close>, the identity the authentication middleware resolved.
\<close>

datatype 'u jsval =
    UserId 'u
  | Undefined
  | Null
  | Bool bool
  | Num jsnum
  | Str string
  | Arr "'u jsval list"
  | Obj "(string \<times> 'u jsval) list"

section \<open>The filter builder\<close>

text \<open>
  The three locals of \<open>buildWhereClause\<close>: \<open>conditions\<close>, \<open>values\<close> (here
  \<open>values_list\<close>) and the next placeholder number \<open>i\<close> (here \<open>idx\<close>).
\<close>

record 'u builder =
  conditions :: "string list"
  values_list :: "'u jsval list"
  idx :: nat

text \<open>\<open>if (q[k]) { ... }\<close> on a string value: defined and not empty.\<close>

definition if_truthy :: "string option \<Rightarrow> (string \<Rightarrow> 's \<Rightarrow> 's) \<Rightarrow> 's \<Rightarrow> 's" where
  "if_truthy v f st = (case v of None \<Rightarrow> st | Some s \<Rightarrow> if s = [] then st else f s st)"

text \<open>\<open>if (q[k] !== undefined) { ... }\<close>.\<close>

definition if_defined :: "string option \<Rightarrow> (string \<Rightarrow> 's \<Rightarrow> 's) \<Rightarrow> 's \<Rightarrow> 's" where
  "if_defined v f st = (case v of None \<Rightarrow> st | Some s \<Rightarrow> f s st)"

text \<open>
  \<open>conditions.push(`${pre}$${i}`); values.push(v); i++\<close>, the shape of every
  single-placeholder filter; \<open>pre\<close> is the condition's text before its placeholder.
\<close>

definition push1 :: "string \<Rightarrow> 'u jsval \<Rightarrow> 'u builder \<Rightarrow> 'u builder" where
  "push1 pre v st =
     st\<lparr>conditions := conditions st @ [pre @ ''$'' @ show_nat (idx st)],
        values_list := values_list st @ [v],
        idx := idx st + 1\<rparr>"

text \<open>
  \<open>conditions.push(`${field} BETWEEN $${i} AND $${i + 1}`); values.push(a, b); i += 2\<close>.
\<close>

definition push_between :: "string \<Rightarrow> 'u jsval \<Rightarrow> 'u jsval \<Rightarrow> 'u builder \<Rightarrow> 'u builder" where
  "push_between field a b st =
     st\<lparr>conditions := conditions st @
          [field @ '' BETWEEN $'' @ show_nat (idx st) @ '' AND $'' @ show_nat (idx st + 1)],
        values_list := values_list st @ [a, b],
        idx := idx st + 2\<rparr>"

definition stringField :: "query \<Rightarrow> string \<Rightarrow> 'u builder \<Rightarrow> 'u builder" where
  "stringField q field st =
     (let st1 = if_truthy (q (field @ ''_equals''))
                  (\<lambda>v. push1 (field @ '' = '') (Str v)) st;
          st2 = if_truthy (q (field @ ''_contains''))
                  (\<lambda>v. push1 (field @ '' ILIKE '') (Str (''%'' @ v @ ''%''))) st1
      in st2)"

text \<open>
  The \<open>_in\<close> list: split at commas, trim each part, drop the empty ones; one placeholder
  per remaining part, each taking the next number.
\<close>

definition in_list :: "string \<Rightarrow> string list" where
  "in_list v = filter (\<lambda>s. s \<noteq> []) (map trim (split_comma v))"

definition push_in :: "string \<Rightarrow> string list \<Rightarrow> 'u builder \<Rightarrow> 'u builder" where
  "push_in field list st =
     (if list = [] then st
      else
        (let placeholders = map (\<lambda>j. ''$'' @ show_nat j) [idx st ..< idx st + length list]
         in st\<lparr>conditions := conditions st @
                  [field @ '' IN ('' @ join '','' placeholders @ '')''],
                values_list := values_list st @ map Str list,
                idx := idx st + length list\<rparr>))"

definition enumField :: "query \<Rightarrow> string \<Rightarrow> 'u builder \<Rightarrow> 'u builder" where
  "enumField q field st =
     (let st1 = if_truthy (q field) (\<lambda>v. push1 (field @ '' = '') (Str v)) st;
          st2 = if_truthy (q (field @ ''_in'')) (\<lambda>v. push_in field (in_list v)) st1
      in st2)"

text \<open>
  \<open>const [min, max] = String(v).split(',')\<close>: \<open>min\<close> is always defined, \<open>max\<close> is
  \<open>undefined\<close> when the value has no comma; parts after the second are dropped.
\<close>

definition number_between ::
  "(string \<Rightarrow> jsnum) \<Rightarrow> string \<Rightarrow> string \<Rightarrow> 'u builder \<Rightarrow> 'u builder" where
  "number_between Number field v st =
     (case split_comma v of
        mn # mx # _ \<Rightarrow> push_between field (Num (Number mn)) (Num (Number mx)) st
      | _ \<Rightarrow> st)"

definition numberField ::
  "(string \<Rightarrow> jsnum) \<Rightarrow> query \<Rightarrow> string \<Rightarrow> 'u builder \<Rightarrow> 'u builder" where
  "numberField Number q field st =
     (let st1 = if_defined (q field) (\<lambda>v. push1 (field @ '' = '') (Num (Number v))) st;
          st2 = if_defined (q (field @ ''_gt''))
                  (\<lambda>v. push1 (field @ '' > '') (Num (Number v))) st1;
          st3 = if_defined (q (field @ ''_lt''))
                  (\<lambda>v. push1 (field @ '' < '') (Num (Number v))) st2;
          st4 = if_truthy (q (field @ ''_between'')) (number_between Number field) st3
      in st4)"

text \<open>\<open>const [from, to] = String(v).split(','); if (from && to) ...\<close>.\<close>

definition date_between :: "string \<Rightarrow> string \<Rightarrow> 'u builder \<Rightarrow> 'u builder" where
  "date_between field v st =
     (case split_comma v of
        from # to # _ \<Rightarrow>
          if from \<noteq> [] \<and> to \<noteq> [] then push_between field (Str from) (Str to) st else st
      | _ \<Rightarrow> st)"

definition dateField :: "query \<Rightarrow> string \<Rightarrow> 'u builder \<Rightarrow> 'u builder" where
  "dateField q field st =
     (let st1 = if_truthy (q (field @ ''_on''))
                  (\<lambda>v. push1 (field @ ''::date = '') (Str v)) st;
          st2 = if_truthy (q (field @ ''_before''))
                  (\<lambda>v. push1 (field @ ''::date <= '') (Str v)) st1;
          st3 = if_truthy (q (field @ ''_after''))
                  (\<lambda>v. push1 (field @ ''::date >= '') (Str v)) st2;
          st4 = if_truthy (q (field @ ''_between'')) (date_between field) st3
      in st4)"

text \<open>
  The body of \<open>buildWhereClause\<close> up to its \<open>return\<close>. The argument object is
  \<open>{ ...req.query, userId: req.user.id }\<close>: \<open>uid\<close> is its \<open>userId\<close> (the spread cannot
  override it, and no other key read here is \<open>userId\<close>), \<open>q\<close> is the rest.
\<close>

definition owner_scope :: "'u \<Rightarrow> 'u builder" where
  "owner_scope uid =
     push1 ''user_id = '' (UserId uid) \<lparr>conditions = [], values_list = [], idx = 1\<rparr>"

definition string_filters :: "query \<Rightarrow> 'u builder \<Rightarrow> 'u builder" where
  "string_filters q st0 =
     (let st1 = stringField q ''email'' st0;
          st2 = stringField q ''company'' st1;
          st3 = stringField q ''city'' st2;
          st4 = stringField q ''first_name'' st3;
          st5 = stringField q ''last_name'' st4
      in st5)"

definition enum_filters :: "query \<Rightarrow> 'u builder \<Rightarrow> 'u builder" where
  "enum_filters q st0 =
     (let st1 = enumField q ''status'' st0;
          st2 = enumField q ''source'' st1
      in st2)"

definition number_filters :: "(string \<Rightarrow> jsnum) \<Rightarrow> query \<Rightarrow> 'u builder \<Rightarrow> 'u builder" where
  "number_filters Number q st0 =
     (let st1 = numberField Number q ''score'' st0;
          st2 = numberField Number q ''lead_value'' st1;
          st3 = if_defined (q ''value_min'')
                  (\<lambda>v. push1 ''lead_value >= '' (Num (Number v))) st2;
          st4 = if_defined (q ''value_max'')
                  (\<lambda>v. push1 ''lead_value <= '' (Num (Number v))) st3
      in st4)"

definition date_filters :: "query \<Rightarrow> 'u builder \<Rightarrow> 'u builder" where
  "date_filters q st0 =
     (let st1 = dateField q ''created_at'' st0;
          st2 = dateField q ''last_activity_at'' st1;
          st3 = if_truthy (q ''created_after'')
                  (\<lambda>v. push1 ''created_at::date >= '' (Str v)) st2;
          st4 = if_truthy (q ''created_before'')
                  (\<lambda>v. push1 ''created_at::date <= '' (Str v)) st3
      in st4)"

definition boolean_filter :: "query \<Rightarrow> 'u builder \<Rightarrow> 'u builder" where
  "boolean_filter q st0 =
     if_defined (q ''is_qualified'')
       (\<lambda>v. push1 ''is_qualified = '' (Bool (toLowerCase v = ''true''))) st0"

definition build :: "(string \<Rightarrow> jsnum) \<Rightarrow> 'u \<Rightarrow> query \<Rightarrow> 'u builder" where
  "build Number uid q =
     (let st1 = owner_scope uid;
          st2 = string_filters q st1;
          st3 = enum_filters q st2;
          st4 = number_filters Number q st3;
          st5 = date_filters q st4;
          st6 = boolean_filter q st5
      in st6)"

record 'u where_clause =
  where_text :: string
  bound :: "'u jsval list"

text \<open>
  \<open>return { where: conditions.length ? conditions.join(' AND ') : 'TRUE', values }\<close>;
  the fields are named \<open>where_text\<close> and \<open>bound\<close> here.
\<close>

definition buildWhereClause :: "(string \<Rightarrow> jsnum) \<Rightarrow> 'u \<Rightarrow> query \<Rightarrow> 'u where_clause" where
  "buildWhereClause Number uid q =
     (let st = build Number uid q
      in \<lparr>where_text = (if conditions st \<noteq> [] then join '' AND '' (conditions st) else ''TRUE''),
          bound = values_list st\<rparr>)"

section \<open>Numbers read from text\<close>

text \<open>\<open>String(v)\<close> of a query value: an absent key is \<open>undefined\<close>.\<close>

definition to_string :: "string option \<Rightarrow> string" where
  "to_string v = (case v of None \<Rightarrow> ''undefined'' | Some s \<Rightarrow> s)"

definition is_hex_digit :: "char \<Rightarrow> bool" where
  "is_hex_digit c =
     (is_digit c \<or> (65 \<le> (of_char c :: nat) \<and> (of_char c :: nat) \<le> 70) \<or>
      (97 \<le> (of_char c :: nat) \<and> (of_char c :: nat) \<le> 102))"

definition hex_val :: "char \<Rightarrow> nat" where
  "hex_val c =
     (if is_digit c then digit_val c
      else if (of_char c :: nat) \<le> 70 then of_char c - 55 else of_char c - 87)"

definition read_hex :: "string \<Rightarrow> nat" where
  "read_hex ds = foldl (\<lambda>a c. 16 * a + hex_val c) 0 ds"

text \<open>
  \<open>parseInt(s)\<close> with no radix: skip leading white space, take a sign, take a \<open>0x\<close> or
  \<open>0X\<close> prefix as radix 16, read the longest run of digits; \<open>NaN\<close> (here \<open>None\<close>) when
  that run is empty. The result is the exact integer (no rounding to a double).
\<close>

definition parseInt :: "string \<Rightarrow> int option" where
  "parseInt s =
     (let s1 = dropWhile is_space s;
          neg = (take 1 s1 = ''-'');
          s2 = (if take 1 s1 = ''+'' \<or> take 1 s1 = ''-'' then drop 1 s1 else s1);
          hex = (take 2 s2 = ''0x'' \<or> take 2 s2 = ''0X'');
          s3 = (if hex then drop 2 s2 else s2);
          z = (if hex then takeWhile is_hex_digit s3 else takeWhile is_digit s3);
          n = (if hex then read_hex z else read_nat z)
      in if z = [] then None else Some (if neg then - int n else int n))"

text \<open>\<open>x || d\<close> on a number: \<open>NaN\<close> and \<open>0\<close> are falsy.\<close>

definition num_or :: "int option \<Rightarrow> int \<Rightarrow> int" where
  "num_or x d = (case x of None \<Rightarrow> d | Some n \<Rightarrow> if n = 0 then d else n)"

section \<open>The leads table and the database\<close>

text \<open>
  A row of \<open>leads\<close>, the table \<open>initDatabase\<close> creates with \<open>id SERIAL PRIMARY KEY\<close> and
  \<open>user_id INTEGER REFERENCES users(id)\<close>: the key, the owner and the two timestamps are
  typed; the thirteen data columns are kept by name, each holding the value that was bound
  for it (PostgreSQL's conversion of a bound value to the column's type is not modelled).
\<close>

record 'u lead =
  lead_id :: int
  user_id :: 'u
  cols :: "(string \<times> 'u jsval) list"
  created_at :: nat
  updated_at :: nat

text \<open>
  The data columns in the order both the \<open>INSERT\<close> (after \<open>user_id\<close>) and the \<open>UPDATE\<close>
  list them.
\<close>

definition lead_columns :: "string list" where
  "lead_columns =
     [''first_name'', ''last_name'', ''email'', ''phone'', ''company'', ''city'', ''state'',
      ''source'', ''status'', ''score'', ''lead_value'', ''last_activity_at'', ''is_qualified'']"

text \<open>The table and the sequence behind \<open>id SERIAL\<close>.\<close>

record 'u db =
  leads_table :: "'u lead list"
  next_id :: int

text \<open>
  PostgreSQL as the routes see it, through \<open>pool.query\<close>. The routes hold the statements
  as text; what a statement does is the database's business. Below, each statement of the
  routes gets the meaning its SQL has on the table, and what is PostgreSQL's own is left
  open as a parameter of every handler:
  \<^item> \<open>raises\<close>: the statement, run with these values on this database, raises an error
    (a lost connection, a violated constraint, a value the column's type rejects);
    \<open>pool.query\<close> then throws and the table is left as it was;
  \<^item> \<open>int_in\<close>: the integer PostgreSQL reads a text value as when it compares it with the
    integer column \<open>id\<close>; \<open>None\<close> when the text is no integer, and the statement raises;
  \<^item> \<open>holds\<close>: whether a row satisfies one filter condition (\<open>ILIKE\<close>, \<open>::date\<close>,
    comparisons with coerced values) under the bound values.
\<close>

record 'u postgres =
  raises :: "'u db \<Rightarrow> string \<Rightarrow> 'u jsval list \<Rightarrow> bool"
  int_in :: "string \<Rightarrow> int option"
  holds :: "string \<Rightarrow> 'u jsval list \<Rightarrow> 'u lead \<Rightarrow> bool"

datatype db_error = DbError

text \<open>\<open>id = $1 AND user_id = $2\<close> with the path's \<open>id\<close> (here \<open>lid\<close>) and the caller's user id
  bound.\<close>

definition id_and_owner :: "'u postgres \<Rightarrow> string \<Rightarrow> 'u \<Rightarrow> 'u lead \<Rightarrow> bool" where
  "id_and_owner pg lid uid r = (int_in pg lid = Some (lead_id r) \<and> user_id r = uid)"

text \<open>
  One condition of the list filter. The ownership condition compares the row's owner with
  the first bound value; every other condition is PostgreSQL's to decide.
\<close>

definition condition_holds ::
  "'u postgres \<Rightarrow> string \<Rightarrow> 'u jsval list \<Rightarrow> 'u lead \<Rightarrow> bool" where
  "condition_holds pg c vs r =
     (if c = ''user_id = $1'' then (case vs of [] \<Rightarrow> False | v # _ \<Rightarrow> v = UserId (user_id r))
      else holds pg c vs r)"

text \<open>
  A \<open>WHERE\<close> text \<open>c1 AND ... AND cn\<close> selects a row when every \<open>ci\<close> holds; the
  conditions are handed over as the list the text was joined from.
\<close>

definition where_holds ::
  "'u postgres \<Rightarrow> string list \<Rightarrow> 'u jsval list \<Rightarrow> 'u lead \<Rightarrow> bool" where
  "where_holds pg cs vs r = list_all (\<lambda>c. condition_holds pg c vs r) cs"

type_synonym 'u statement = "string \<times> 'u jsval list"

text \<open>
  \<open>pool.query(text, values)\<close> for each statement of the routes. \<open>Inl DbError\<close> is the
  rejected promise; otherwise the result rows and the database after the statement.
\<close>

definition run_by_id ::
  "'u postgres \<Rightarrow> 'u db \<Rightarrow> 'u statement \<Rightarrow> string \<Rightarrow> bool" where
  "run_by_id pg d stmt lid = (\<not> raises pg d (fst stmt) (snd stmt) \<and> int_in pg lid \<noteq> None)"

definition select_lead ::
  "'u postgres \<Rightarrow> 'u db \<Rightarrow> 'u statement \<Rightarrow> string \<Rightarrow> 'u \<Rightarrow> db_error + 'u lead list" where
  "select_lead pg d stmt lid uid =
     (if run_by_id pg d stmt lid then Inr (filter (id_and_owner pg lid uid) (leads_table d))
      else Inl DbError)"

definition delete_lead_rows ::
  "'u postgres \<Rightarrow> 'u db \<Rightarrow> 'u statement \<Rightarrow> string \<Rightarrow> 'u \<Rightarrow> db_error + (int list \<times> 'u db)" where
  "delete_lead_rows pg d stmt lid uid =
     (if run_by_id pg d stmt lid
      then Inr (map lead_id (filter (id_and_owner pg lid uid) (leads_table d)),
                d\<lparr>leads_table := filter (\<lambda>r. \<not> id_and_owner pg lid uid r) (leads_table d)\<rparr>)
      else Inl DbError)"

text \<open>
  \<open>UPDATE leads SET first_name=$1, ..., is_qualified=$13, updated_at=CURRENT_TIMESTAMP
  WHERE id=$14 AND user_id=$15 RETURNING *\<close>: every data column is replaced.
\<close>

definition set_columns :: "nat \<Rightarrow> 'u jsval list \<Rightarrow> 'u lead \<Rightarrow> 'u lead" where
  "set_columns now vs r = r\<lparr>cols := zip lead_columns vs, updated_at := now\<rparr>"

definition update_lead_rows ::
  "'u postgres \<Rightarrow> nat \<Rightarrow> 'u db \<Rightarrow> 'u statement \<Rightarrow> 'u jsval list \<Rightarrow> string \<Rightarrow> 'u \<Rightarrow>
   db_error + ('u lead list \<times> 'u db)" where
  "update_lead_rows pg now d stmt vs lid uid =
     (if run_by_id pg d stmt lid
      then Inr (map (set_columns now vs) (filter (id_and_owner pg lid uid) (leads_table d)),
                d\<lparr>leads_table := map (\<lambda>r. if id_and_owner pg lid uid r then set_columns now vs r else r)
                               (leads_table d)\<rparr>)
      else Inl DbError)"

text \<open>
  \<open>INSERT INTO leads (user_id, first_name, ..., is_qualified) VALUES ($1,...,$14)
  RETURNING *\<close>: the key comes from the sequence, both timestamps default to the
  current time.
\<close>

definition insert_lead_row ::
  "'u postgres \<Rightarrow> nat \<Rightarrow> 'u db \<Rightarrow> 'u statement \<Rightarrow> 'u \<Rightarrow> 'u jsval list \<Rightarrow>
   db_error + ('u lead list \<times> 'u db)" where
  "insert_lead_row pg now d stmt uid vs =
     (if raises pg d (fst stmt) (snd stmt) then Inl DbError
      else
        (let r = \<lparr>lead_id = next_id d, user_id = uid, cols = zip lead_columns vs,
                  created_at = now, updated_at = now\<rparr>
         in Inr ([r], d\<lparr>leads_table := leads_table d @ [r], next_id := next_id d + 1\<rparr>)))"

text \<open>
  \<open>SELECT COUNT(*) FROM leads WHERE ...\<close>: one row whose \<open>count\<close> the driver delivers
  as decimal text.
\<close>

definition count_leads ::
  "'u postgres \<Rightarrow> 'u db \<Rightarrow> 'u statement \<Rightarrow> string list \<Rightarrow> db_error + string" where
  "count_leads pg d stmt cs =
     (if raises pg d (fst stmt) (snd stmt) then Inl DbError
      else Inr (show_nat (length (filter (where_holds pg cs (snd stmt)) (leads_table d)))))"

text \<open>
  \<open>SELECT * FROM leads WHERE ... ORDER BY created_at DESC LIMIT n_limit OFFSET n_offset\<close>. Rows with
  equal \<open>created_at\<close> come in an order SQL leaves open; the model fixes one.
\<close>

definition list_leads ::
  "'u postgres \<Rightarrow> 'u db \<Rightarrow> 'u statement \<Rightarrow> string list \<Rightarrow> 'u jsval list \<Rightarrow> int \<Rightarrow> int \<Rightarrow>
   db_error + 'u lead list" where
  "list_leads pg d stmt cs vs n_limit n_offset =
     (if raises pg d (fst stmt) (snd stmt) then Inl DbError
      else Inr (take (nat n_limit) (drop (nat n_offset)
                  (rev (sort_key created_at (filter (where_holds pg cs vs) (leads_table d)))))))"

section \<open>Requests and responses\<close>

text \<open>
  A request body is the parsed JSON object: a mapping from property names to values; a
  property that is absent reads as \<open>undefined\<close>.
\<close>

type_synonym 'u body_in = "string \<rightharpoonup> 'u jsval"

text \<open>\<open>req.body[k]\<close>.\<close>

definition body_prop :: "'u body_in \<Rightarrow> string \<Rightarrow> 'u jsval" where
  "body_prop b k = (case b k of None \<Rightarrow> Undefined | Some v \<Rightarrow> v)"

text \<open>JavaScript truthiness, as \<open>!x\<close> and \<open>x || y\<close> test it.\<close>

fun truthy :: "'u jsval \<Rightarrow> bool" where
  "truthy Undefined = False"
| "truthy Null = False"
| "truthy (Bool b) = b"
| "truthy (Num NaN) = False"
| "truthy (Num (Fin x)) = (x \<noteq> 0)"
| "truthy (Str s) = (s \<noteq> [])"
| "truthy _ = True"

text \<open>\<open>x || y\<close>.\<close>

definition or_else :: "'u jsval \<Rightarrow> 'u jsval \<Rightarrow> 'u jsval" where
  "or_else x y = (if truthy x then x else y)"

text \<open>\<open>typeof x === 'number' ? x : null\<close>.\<close>

definition number_or_null :: "'u jsval \<Rightarrow> 'u jsval" where
  "number_or_null x = (case x of Num n \<Rightarrow> Num n | _ \<Rightarrow> Null)"

text \<open>\<open>typeof x === 'boolean' ? x : false\<close>.\<close>

definition boolean_or_false :: "'u jsval \<Rightarrow> 'u jsval" where
  "boolean_or_false x = (case x of Bool b \<Rightarrow> Bool b | _ \<Rightarrow> Bool False)"

text \<open>
  The thirteen values both write statements bind for the data columns, in the order of
  \<open>lead_columns\<close>.
\<close>

definition column_values :: "'u body_in \<Rightarrow> 'u jsval list" where
  "column_values b =
     [body_prop b ''first_name'',
      body_prop b ''last_name'',
      body_prop b ''email'',
      or_else (body_prop b ''phone'') Null,
      or_else (body_prop b ''company'') Null,
      or_else (body_prop b ''city'') Null,
      or_else (body_prop b ''state'') Null,
      or_else (body_prop b ''source'') Null,
      or_else (body_prop b ''status'') (Str ''new''),
      number_or_null (body_prop b ''score''),
      number_or_null (body_prop b ''lead_value''),
      or_else (body_prop b ''last_activity_at'') Null,
      boolean_or_false (body_prop b ''is_qualified'')]"

text \<open>\<open>!first_name || !last_name || !email\<close>.\<close>

definition missing_required :: "'u body_in \<Rightarrow> bool" where
  "missing_required b =
     (\<not> truthy (body_prop b ''first_name'') \<or> \<not> truthy (body_prop b ''last_name'') \<or>
      \<not> truthy (body_prop b ''email''))"

text \<open>The legacy \<open>pagination\<close> object \<open>{ page, limit, total, pages }\<close>.\<close>

record pagination_obj =
  pagination_page :: int
  pagination_limit :: int
  pagination_total :: "int option"
  pages :: "int option"

text \<open>The list payload; a number that may be \<open>NaN\<close> is an \<open>int option\<close>.\<close>

record 'u payload =
  data :: "'u lead list"
  page :: int
  limit :: int
  total :: "int option"
  totalPages :: "int option"
  leads :: "'u lead list"
  pagination :: pagination_obj

datatype 'u body =
    ErrorBody string
  | LeadBody "'u lead"
  | MessageBody string
  | MessageLeadBody string "'u lead option"
  | ListBody "'u payload"

record 'u response =
  status :: nat
  body :: "'u body"

text \<open>
  What a handler leaves behind: the response, the database, and the statements it handed
  to \<open>pool.query\<close>, in order.
\<close>

record 'u outcome =
  response :: "'u response"
  store :: "'u db"
  queries :: "'u statement list"

definition server_error :: "'u response" where
  "server_error = \<lparr>status = 500, body = ErrorBody ''Server error''\<rparr>"

definition not_found :: "'u response" where
  "not_found = \<lparr>status = 404, body = ErrorBody ''Lead not found''\<rparr>"

definition bad_request :: "'u response" where
  "bad_request =
     \<lparr>status = 400, body = ErrorBody ''first_name, last_name, and email are required''\<rparr>"

text \<open>\<open>rows[0]\<close>: \<open>undefined\<close> on an empty result.\<close>

definition first_row :: "'a list \<Rightarrow> 'a option" where
  "first_row rows = (case rows of [] \<Rightarrow> None | r # _ \<Rightarrow> Some r)"

section \<open>The route handlers\<close>

text \<open>
  Each handler is the body of its \<open>try\<close> block with the \<open>catch\<close> as the \<open>Inl\<close> branches:
  a statement that raises is answered \<open>500\<close> and nothing after it runs. The arguments
  are the parts of the request the handler reads; \<open>uid\<close> is \<open>req.user.id\<close>.
\<close>

definition sql_select_lead :: string where
  "sql_select_lead = ''SELECT * FROM leads WHERE id = $1 AND user_id = $2''"

definition sql_select_id :: string where
  "sql_select_id = ''SELECT id FROM leads WHERE id = $1 AND user_id = $2''"

definition sql_delete :: string where
  "sql_delete = ''DELETE FROM leads WHERE id = $1 AND user_id = $2 RETURNING id''"

definition nl :: string where
  "nl = [CHR 0x0A]"

definition sql_insert :: string where
  "sql_insert =
     ''INSERT INTO leads ('' @ nl @
     ''        user_id, first_name, last_name, email, phone, company, city, state,'' @ nl @
     ''        source, status, score, lead_value, last_activity_at, is_qualified'' @ nl @
     ''      ) VALUES ($1,$2,$3,$4,$5,$6,$7,$8,$9,$10,$11,$12,$13,$14)'' @ nl @
     ''      RETURNING *''"

definition sql_update :: string where
  "sql_update =
     ''UPDATE leads SET'' @ nl @
     ''        first_name=$1, last_name=$2, email=$3, phone=$4, company=$5, city=$6, state=$7,'' @ nl @
     ''        source=$8, status=$9, score=$10, lead_value=$11, last_activity_at=$12,'' @ nl @
     ''        is_qualified=$13, updated_at=CURRENT_TIMESTAMP'' @ nl @
     ''      WHERE id=$14 AND user_id=$15'' @ nl @
     ''      RETURNING *''"

definition count_query :: "string \<Rightarrow> string" where
  "count_query w = ''SELECT COUNT(*) FROM leads WHERE '' @ w"

definition list_query :: "string \<Rightarrow> nat \<Rightarrow> string" where
  "list_query w n =
     nl @ ''      SELECT *'' @ nl @
     ''      FROM leads'' @ nl @
     ''      WHERE '' @ w @ nl @
     ''      ORDER BY created_at DESC'' @ nl @
     ''      LIMIT $'' @ show_nat (n + 1) @ '' OFFSET $'' @ show_nat (n + 2) @ nl @
     ''    ''"

text \<open>A JavaScript number that is an integer, as a bound value.\<close>

definition num_of_int :: "int \<Rightarrow> 'u jsval" where
  "num_of_int n = Num (Fin (of_int n))"

text \<open>\<open>Math.ceil(total / limit)\<close>; \<open>NaN\<close> stays \<open>NaN\<close>.\<close>

definition ceil_div :: "int option \<Rightarrow> int \<Rightarrow> int option" where
  "ceil_div t l = map_option (\<lambda>n. \<lceil>(of_int n :: rat) / of_int l\<rceil>) t"

text \<open>
  The first three lines of \<open>GET /leads\<close>:
  \<open>page = Math.max(parseInt(req.query.page) || 1, 1)\<close>,
  \<open>limit = Math.min(Math.max(parseInt(req.query.limit) || 20, 1), 100)\<close>,
  \<open>offset = (page - 1) * limit\<close>.
\<close>

definition page_of :: "query \<Rightarrow> int" where
  "page_of q = max (num_or (parseInt (to_string (q ''page''))) 1) 1"

definition limit_of :: "query \<Rightarrow> int" where
  "limit_of q = min (max (num_or (parseInt (to_string (q ''limit''))) 20) 1) 100"

definition offset_of :: "query \<Rightarrow> int" where
  "offset_of q = (page_of q - 1) * limit_of q"

text \<open>The two statements of \<open>GET /leads\<close> with their values.\<close>

definition count_statement :: "'u where_clause \<Rightarrow> 'u statement" where
  "count_statement w = (count_query (where_text w), bound w)"

definition list_statement :: "'u where_clause \<Rightarrow> int \<Rightarrow> int \<Rightarrow> 'u statement" where
  "list_statement w n_limit n_offset =
     (list_query (where_text w) (length (bound w)),
      bound w @ [num_of_int n_limit, num_of_int n_offset])"

text \<open>The payload: the modern shape, then \<open>leads\<close> and \<open>pagination\<close> added to it.\<close>

definition list_payload :: "'u lead list \<Rightarrow> int \<Rightarrow> int \<Rightarrow> int option \<Rightarrow> 'u payload" where
  "list_payload rows n_page n_limit n_total =
     (let totalPages = ceil_div n_total n_limit
      in \<lparr>data = rows, page = n_page, limit = n_limit, total = n_total,
          totalPages = totalPages, leads = rows,
          pagination =
            \<lparr>pagination_page = n_page, pagination_limit = n_limit,
             pagination_total = n_total, pages = totalPages\<rparr>\<rparr>)"

text \<open>
  \<open>GET /leads\<close>. The statements carry the \<open>WHERE\<close> text; \<open>cs\<close> is the list of conditions
  that text was joined from, by which the database decides what the text selects.
\<close>

definition get_leads ::
  "'u postgres \<Rightarrow> (string \<Rightarrow> jsnum) \<Rightarrow> 'u db \<Rightarrow> 'u \<Rightarrow> query \<Rightarrow> 'u outcome" where
  "get_leads pg Number d uid q =
     (let w = buildWhereClause Number uid q;
          cs = conditions (build Number uid q);
          countStmt = count_statement w
      in case count_leads pg d countStmt cs of
           Inl _ \<Rightarrow> \<lparr>response = server_error, store = d, queries = [countStmt]\<rparr>
         | Inr count \<Rightarrow>
             (let listStmt = list_statement w (limit_of q) (offset_of q)
              in case list_leads pg d listStmt cs (bound w) (limit_of q) (offset_of q) of
                   Inl _ \<Rightarrow> \<lparr>response = server_error, store = d, queries = [countStmt, listStmt]\<rparr>
                 | Inr rows \<Rightarrow>
                     \<lparr>response =
                        \<lparr>status = 200,
                         body = ListBody (list_payload rows (page_of q) (limit_of q) (parseInt count))\<rparr>,
                      store = d, queries = [countStmt, listStmt]\<rparr>))"

text \<open>\<open>GET /leads/:id\<close>.\<close>

definition get_lead :: "'u postgres \<Rightarrow> 'u db \<Rightarrow> 'u \<Rightarrow> string \<Rightarrow> 'u outcome" where
  "get_lead pg d uid lid =
     (let stmt = (sql_select_lead, [Str lid, UserId uid])
      in case select_lead pg d stmt lid uid of
           Inl _ \<Rightarrow> \<lparr>response = server_error, store = d, queries = [stmt]\<rparr>
         | Inr [] \<Rightarrow> \<lparr>response = not_found, store = d, queries = [stmt]\<rparr>
         | Inr (r # _) \<Rightarrow>
             \<lparr>response = \<lparr>status = 200, body = LeadBody r\<rparr>, store = d, queries = [stmt]\<rparr>)"

text \<open>\<open>POST /leads\<close>.\<close>

definition post_lead :: "'u postgres \<Rightarrow> nat \<Rightarrow> 'u db \<Rightarrow> 'u \<Rightarrow> 'u body_in \<Rightarrow> 'u outcome" where
  "post_lead pg now d uid b =
     (if missing_required b then \<lparr>response = bad_request, store = d, queries = []\<rparr>
      else
        (let stmt = (sql_insert, UserId uid # column_values b)
         in case insert_lead_row pg now d stmt uid (column_values b) of
              Inl _ \<Rightarrow> \<lparr>response = server_error, store = d, queries = [stmt]\<rparr>
            | Inr (rows, d') \<Rightarrow>
                \<lparr>response =
                   \<lparr>status = 201,
                    body = MessageLeadBody ''Lead created successfully'' (first_row rows)\<rparr>,
                 store = d', queries = [stmt]\<rparr>))"

text \<open>\<open>PUT /leads/:id\<close>.\<close>

definition put_lead ::
  "'u postgres \<Rightarrow> nat \<Rightarrow> 'u db \<Rightarrow> 'u \<Rightarrow> string \<Rightarrow> 'u body_in \<Rightarrow> 'u outcome" where
  "put_lead pg now d uid lid b =
     (let existsStmt = (sql_select_id, [Str lid, UserId uid])
      in case select_lead pg d existsStmt lid uid of
           Inl _ \<Rightarrow> \<lparr>response = server_error, store = d, queries = [existsStmt]\<rparr>
         | Inr [] \<Rightarrow> \<lparr>response = not_found, store = d, queries = [existsStmt]\<rparr>
         | Inr (_ # _) \<Rightarrow>
             (if missing_required b
              then \<lparr>response = bad_request, store = d, queries = [existsStmt]\<rparr>
              else
                (let stmt = (sql_update, column_values b @ [Str lid, UserId uid])
                 in case update_lead_rows pg now d stmt (column_values b) lid uid of
                      Inl _ \<Rightarrow>
                        \<lparr>response = server_error, store = d, queries = [existsStmt, stmt]\<rparr>
                    | Inr (rows, d') \<Rightarrow>
                        \<lparr>response =
                           \<lparr>status = 200,
                            body = MessageLeadBody ''Lead updated successfully'' (first_row rows)\<rparr>,
                         store = d', queries = [existsStmt, stmt]\<rparr>)))"

text \<open>\<open>DELETE /leads/:id\<close>.\<close>

definition delete_lead :: "'u postgres \<Rightarrow> 'u db \<Rightarrow> 'u \<Rightarrow> string \<Rightarrow> 'u outcome" where
  "delete_lead pg d uid lid =
     (let stmt = (sql_delete, [Str lid, UserId uid])
      in case delete_lead_rows pg d stmt lid uid of
           Inl _ \<Rightarrow> \<lparr>response = server_error, store = d, queries = [stmt]\<rparr>
         | Inr ([], d') \<Rightarrow> \<lparr>response = not_found, store = d', queries = [stmt]\<rparr>
         | Inr (_ # _, d') \<Rightarrow>
             \<lparr>response = \<lparr>status = 200, body = MessageBody ''Lead deleted successfully''\<rparr>,
              store = d', queries = [stmt]\<rparr>)"

text \<open>
  The router runs the authentication middleware before each handler:
  \<open>router.get('/', auth, handler)\<close>. The middleware is required from
  \<open>../middleware/auth\<close> and is not code of the routes; it is the parameter \<open>auth\<close>, which
  reads what it needs from the request (\<open>tok\<close>) and either answers the request itself
  (\<open>Inl\<close>) or resolves the caller's identity and passes on (\<open>Inr\<close>).
\<close>

definition with_auth ::
  "('t \<Rightarrow> 'u response + 'u) \<Rightarrow> 't \<Rightarrow> 'u db \<Rightarrow> ('u \<Rightarrow> 'u outcome) \<Rightarrow> 'u outcome" where
  "with_auth auth tok d handler =
     (case auth tok of
        Inl r \<Rightarrow> \<lparr>response = r, store = d, queries = []\<rparr>
      | Inr uid \<Rightarrow> handler uid)"

definition route_get_leads ::
  "('t \<Rightarrow> 'u response + 'u) \<Rightarrow> 'u postgres \<Rightarrow> (string \<Rightarrow> jsnum) \<Rightarrow> 'u db \<Rightarrow> 't \<Rightarrow> query \<Rightarrow>
   'u outcome" where
  "route_get_leads auth pg Number d tok q = with_auth auth tok d (\<lambda>uid. get_leads pg Number d uid q)"

definition route_get_lead ::
  "('t \<Rightarrow> 'u response + 'u) \<Rightarrow> 'u postgres \<Rightarrow> 'u db \<Rightarrow> 't \<Rightarrow> string \<Rightarrow> 'u outcome" where
  "route_get_lead auth pg d tok lid = with_auth auth tok d (\<lambda>uid. get_lead pg d uid lid)"

definition route_post_lead ::
  "('t \<Rightarrow> 'u response + 'u) \<Rightarrow> 'u postgres \<Rightarrow> nat \<Rightarrow> 'u db \<Rightarrow> 't \<Rightarrow> 'u body_in \<Rightarrow>
   'u outcome" where
  "route_post_lead auth pg now d tok b = with_auth auth tok d (\<lambda>uid. post_lead pg now d uid b)"

definition route_put_lead ::
  "('t \<Rightarrow> 'u response + 'u) \<Rightarrow> 'u postgres \<Rightarrow> nat \<Rightarrow> 'u db \<Rightarrow> 't \<Rightarrow> string \<Rightarrow> 'u body_in \<Rightarrow>
   'u outcome" where
  "route_put_lead auth pg now d tok lid b =
     with_auth auth tok d (\<lambda>uid. put_lead pg now d uid lid b)"

definition route_delete_lead ::
  "('t \<Rightarrow> 'u response + 'u) \<Rightarrow> 'u postgres \<Rightarrow> 'u db \<Rightarrow> 't \<Rightarrow> string \<Rightarrow> 'u outcome" where
  "route_delete_lead auth pg d tok lid = with_auth auth tok d (\<lambda>uid. delete_lead pg d uid lid)"

section \<open>Notions the properties are stated with\<close>

text \<open>
  The placeholder numbers a statement text refers to, in order of occurrence: each \<open>$\<close>
  with the decimal number that follows it.
\<close>

function placeholder_numbers :: "string \<Rightarrow> nat list" where
  "placeholder_numbers [] = []"
| "placeholder_numbers (c # cs) =
     (if c = CHR ''$'' then read_nat (takeWhile is_digit cs) # placeholder_numbers (dropWhile is_digit cs)
      else placeholder_numbers cs)"
  by pat_completeness auto
termination
  by (relation "measure length") (auto simp: length_dropWhile_le less_Suc_eq_le)

text \<open>
  The numbering invariant of the builder: the conditions collected so far refer to
  \<open>$1 ... $(i-1)\<close> in order, and \<open>i - 1\<close> values have been collected.
\<close>

definition well_numbered :: "'u builder \<Rightarrow> bool" where
  "well_numbered st =
     (concat (map placeholder_numbers (conditions st)) = [1 ..< idx st] \<and>
      idx st = Suc (length (values_list st)))"


text \<open>
  \<open>binds st pre v\<close>: a condition \<open>pre$n\<close> has been collected and the \<open>n\<close>-th collected
  value is \<open>v\<close>; \<open>binds_between\<close> is the same for \<open>field BETWEEN $n AND $(n+1)\<close>.
\<close>

definition binds :: "'u builder \<Rightarrow> string \<Rightarrow> 'u jsval \<Rightarrow> bool" where
  "binds st pre v =
     (\<exists>n\<in>{1 .. length (values_list st)}.
        pre @ ''$'' @ show_nat n \<in> set (conditions st) \<and> values_list st ! (n - 1) = v)"

definition binds_between :: "'u builder \<Rightarrow> string \<Rightarrow> 'u jsval \<Rightarrow> 'u jsval \<Rightarrow> bool" where
  "binds_between st field a b =
     (\<exists>n\<in>{1 ..< length (values_list st)}.
        field @ '' BETWEEN $'' @ show_nat n @ '' AND $'' @ show_nat (n + 1) \<in> set (conditions st) \<and>
        values_list st ! (n - 1) = a \<and> values_list st ! n = b)"

text \<open>A later builder state only has more conditions and values at the end.\<close>

definition grows :: "'u builder \<Rightarrow> 'u builder \<Rightarrow> bool" where
  "grows st st' =
     (\<exists>cs vs. conditions st' = conditions st @ cs \<and> values_list st' = values_list st @ vs)"

text \<open>
  The single-valued numeric filters: the query key and the text of its condition before
  the placeholder.
\<close>

definition number_operators :: "(string \<times> string) list" where
  "number_operators =
     [(''score'', ''score = ''), (''score_gt'', ''score > ''), (''score_lt'', ''score < ''),
      (''lead_value'', ''lead_value = ''), (''lead_value_gt'', ''lead_value > ''),
      (''lead_value_lt'', ''lead_value < ''),
      (''value_min'', ''lead_value >= ''), (''value_max'', ''lead_value <= '')]"

text \<open>The rows of the table that satisfy the filter \<open>buildWhereClause\<close> builds for a query.\<close>

definition matching ::
  "'u postgres \<Rightarrow> (string \<Rightarrow> jsnum) \<Rightarrow> 'u db \<Rightarrow> 'u \<Rightarrow> query \<Rightarrow> 'u lead list" where
  "matching pg Number d uid q =
     filter (where_holds pg (conditions (build Number uid q))
               (bound (buildWhereClause Number uid q))) (leads_table d)"

text \<open>The leads a response carries.\<close>

fun returned_leads :: "'u response \<Rightarrow> 'u lead list" where
  "returned_leads r =
     (case body r of
        ListBody p \<Rightarrow> data p @ leads p
      | LeadBody l \<Rightarrow> [l]
      | MessageLeadBody _ (Some l) \<Rightarrow> [l]
      | _ \<Rightarrow> [])"

text \<open>The rows of the other users.\<close>

definition others_rows :: "'u \<Rightarrow> 'u db \<Rightarrow> 'u lead list" where
  "others_rows uid d = filter (\<lambda>r. user_id r \<noteq> uid) (leads_table d)"

section \<open>Sample data\<close>

text \<open>
  A stand-in for \<open>Number\<close>: the empty string is 0 and a run of decimal digits is its
  value, as in JavaScript; every other text is \<open>NaN\<close>, which is what JavaScript gives for
  the texts \<open>abc\<close> and \<open>x\<close> used below.
\<close>

definition sample_Number :: "string \<Rightarrow> jsnum" where
  "sample_Number s =
     (if s = [] then Fin 0
      else if list_all is_digit s then Fin (of_nat (read_nat s)) else NaN)"

text \<open>
  A stand-in for the database: it raises no error of its own, reads a run of decimal
  digits as an integer and no other text (PostgreSQL also reads a sign and surrounding
  blanks; it rejects \<open>abc\<close>), and lets every filter condition but the ownership one hold.
\<close>

definition sample_pg :: "nat postgres" where
  "sample_pg =
     \<lparr>raises = (\<lambda>d text vs. False),
      int_in = (\<lambda>s. if s \<noteq> [] \<and> list_all is_digit s then Some (int (read_nat s)) else None),
      holds = (\<lambda>c vs r. True)\<rparr>"

definition sample_body :: "nat body_in" where
  "sample_body =
     [''first_name'' \<mapsto> Str ''Ada'', ''last_name'' \<mapsto> Str ''Lovelace'',
      ''email'' \<mapsto> Str ''ada@example.org'']"

definition lead_of_ada :: "nat lead" where
  "lead_of_ada =
     \<lparr>lead_id = 1, user_id = 1,
      cols = zip lead_columns
        [Str ''Ada'', Str ''Lovelace'', Str ''ada@example.org'', Null, Null, Null, Null, Null,
         Str ''won'', Null, Null, Null, Bool False],
      created_at = 10, updated_at = 10\<rparr>"

definition lead_of_bob :: "nat lead" where
  "lead_of_bob =
     \<lparr>lead_id = 2, user_id = 2,
      cols = zip lead_columns
        [Str ''Bob'', Str ''Byte'', Str ''bob@example.org'', Null, Null, Null, Null, Null,
         Str ''new'', Null, Null, Null, Bool False],
      created_at = 20, updated_at = 20\<rparr>"

definition sample_db :: "nat db" where
  "sample_db = \<lparr>leads_table = [lead_of_ada, lead_of_bob], next_id = 3\<rparr>"

section \<open>Placeholders in the text the builder produces\<close>

subsection \<open>Decimal text and the scan for placeholders\<close>

lemma digit_char_digit: "d < 10 \<Longrightarrow> is_digit (digit_char d) \<and> digit_val (digit_char d) = d"
proof -
  assume "d < 10"
  then have "d \<in> {0,1,2,3,4,5,6,7,8,9}" by auto
  then show ?thesis
    by (auto simp: is_digit_def digit_val_def digit_char_def)
qed

lemma show_nat_digits: "list_all is_digit (show_nat n)"
proof (induction n rule: show_nat.induct)
  case (1 n)
  show ?case
  proof (cases "n < 10")
    case True
    then show ?thesis by (subst show_nat.simps) (simp add: digit_char_digit)
  next
    case False
    with 1 show ?thesis by (subst show_nat.simps) (simp add: digit_char_digit)
  qed
qed

lemma read_nat_snoc: "read_nat (ds @ [c]) = 10 * read_nat ds + digit_val c"
  by (simp add: read_nat_def)

lemma read_show_nat: "read_nat (show_nat n) = n"
proof (induction n rule: show_nat.induct)
  case (1 n)
  show ?case
  proof (cases "n < 10")
    case True
    then show ?thesis by (subst show_nat.simps) (simp add: digit_char_digit read_nat_def)
  next
    case False
    with 1 have "read_nat (show_nat (n div 10)) = n div 10" by simp
    with False show ?thesis
      by (subst show_nat.simps) (simp add: read_nat_snoc digit_char_digit)
  qed
qed

lemma show_nat_not_Nil: "show_nat n \<noteq> []"
  by (subst show_nat.simps) simp

lemma takeWhile_boundary:
  "t = [] \<or> \<not> P (hd t) \<Longrightarrow> takeWhile P (s @ t) = takeWhile P s"
  by (induction s) (auto simp: takeWhile_eq_Nil_iff)

lemma dropWhile_boundary:
  "t = [] \<or> \<not> P (hd t) \<Longrightarrow> dropWhile P (s @ t) = dropWhile P s @ t"
  by (induction s) (auto simp: dropWhile_eq_self_iff)

lemma placeholder_numbers_append:
  "t = [] \<or> \<not> is_digit (hd t) \<Longrightarrow> placeholder_numbers (s @ t) = placeholder_numbers s @ placeholder_numbers t"
proof (induction s rule: placeholder_numbers.induct)
  case 1
  then show ?case by simp
next
  case (2 c cs)
  then show ?case by (simp add: takeWhile_boundary dropWhile_boundary)
qed

lemma placeholder_numbers_plain: "CHR ''$'' \<notin> set s \<Longrightarrow> placeholder_numbers s = []"
  by (induction s) auto

lemma placeholder_numbers_dollar: "placeholder_numbers (CHR ''$'' # show_nat n) = [n]"
proof -
  have digits: "\<forall>c\<in>set (show_nat n). is_digit c"
    using show_nat_digits [of n] by (simp add: list_all_iff)
  have tw: "takeWhile is_digit (show_nat n) = show_nat n"
    using digits by simp
  have dw: "dropWhile is_digit (show_nat n) = []"
    using digits by simp
  show ?thesis
    by (simp add: tw dw read_show_nat)
qed

lemma placeholder_numbers_skip:
  "c \<noteq> CHR ''$'' \<Longrightarrow> placeholder_numbers (c # s) = placeholder_numbers s"
  by simp

declare placeholder_numbers.simps(2) [simp del]

lemma dollar_not_digit: "\<not> is_digit (CHR ''$'')"
  by (simp add: is_digit_def)

lemma placeholder_numbers_cond1:
  "CHR ''$'' \<notin> set pre \<Longrightarrow> placeholder_numbers (pre @ ''$'' @ show_nat n) = [n]"
proof -
  assume plain: "CHR ''$'' \<notin> set pre"
  have "placeholder_numbers (pre @ (CHR ''$'' # show_nat n)) =
        placeholder_numbers pre @ placeholder_numbers (CHR ''$'' # show_nat n)"
    by (rule placeholder_numbers_append) (simp add: dollar_not_digit)
  with plain show ?thesis
    by (simp add: placeholder_numbers_plain placeholder_numbers_dollar)
qed

lemma placeholder_numbers_between:
  assumes "CHR ''$'' \<notin> set field"
  shows "placeholder_numbers
           (field @ '' BETWEEN $'' @ show_nat n @ '' AND $'' @ show_nat m) = [n, m]"
proof -
  have a: "placeholder_numbers ((field @ '' BETWEEN $'' @ show_nat n) @ ('' AND $'' @ show_nat m)) =
        placeholder_numbers (field @ '' BETWEEN $'' @ show_nat n) @
        placeholder_numbers ('' AND $'' @ show_nat m)"
    by (rule placeholder_numbers_append) (simp add: is_digit_def)
  have b: "placeholder_numbers ((field @ '' BETWEEN '') @ ''$'' @ show_nat n) = [n]"
    by (rule placeholder_numbers_cond1) (simp add: assms)
  have c: "placeholder_numbers ('' AND '' @ ''$'' @ show_nat m) = [m]"
    by (rule placeholder_numbers_cond1) simp
  from a b c show ?thesis by simp
qed

lemma placeholder_numbers_in_list:
  "placeholder_numbers (join '','' (map (\<lambda>j. ''$'' @ show_nat j) ns) @ '')'') = ns"
proof (induction ns rule: induct_list012)
  case 1
  then show ?case by (simp add: placeholder_numbers_plain)
next
  case (2 n)
  have "placeholder_numbers ((CHR ''$'' # show_nat n) @ '')'') =
        placeholder_numbers (CHR ''$'' # show_nat n) @ placeholder_numbers '')''"
    by (rule placeholder_numbers_append) (simp add: is_digit_def)
  then show ?case by (simp add: placeholder_numbers_dollar placeholder_numbers_plain)
next
  case (3 n m ns)
  let ?rest = "join '','' (map (\<lambda>j. ''$'' @ show_nat j) (m # ns)) @ '')''"
  have "placeholder_numbers ((CHR ''$'' # show_nat n) @ (CHR '','' # ?rest)) =
        placeholder_numbers (CHR ''$'' # show_nat n) @ placeholder_numbers (CHR '','' # ?rest)"
    by (rule placeholder_numbers_append) (simp add: is_digit_def)
  moreover have "placeholder_numbers (CHR '','' # ?rest) = placeholder_numbers ?rest"
    by (rule placeholder_numbers_skip) simp
  ultimately show ?case
    using "3.IH"(2) by (simp add: placeholder_numbers_dollar)
qed

lemma in_list_starts:
  "join '','' (map (\<lambda>j. ''$'' @ show_nat j) ns) @ '')'' \<noteq> [] \<and>
   \<not> is_digit (hd (join '','' (map (\<lambda>j. ''$'' @ show_nat j) ns) @ '')''))"
  by (induction ns rule: induct_list012) (simp_all add: is_digit_def)

lemma placeholder_numbers_in:
  assumes "CHR ''$'' \<notin> set field"
  shows "placeholder_numbers
           (field @ '' IN ('' @ join '','' (map (\<lambda>j. ''$'' @ show_nat j) ns) @ '')'') = ns"
proof -
  let ?body = "join '','' (map (\<lambda>j. ''$'' @ show_nat j) ns) @ '')''"
  have "placeholder_numbers ((field @ '' IN ('') @ ?body) =
        placeholder_numbers (field @ '' IN ('') @ placeholder_numbers ?body"
    by (rule placeholder_numbers_append) (use in_list_starts [of ns] in simp)
  moreover have "placeholder_numbers (field @ '' IN ('') = []"
    by (rule placeholder_numbers_plain) (simp add: assms)
  ultimately show ?thesis
    using placeholder_numbers_in_list [of ns] by simp
qed

lemma placeholder_numbers_join:
  "placeholder_numbers (join '' AND '' cs) = concat (map placeholder_numbers cs)"
proof (induction cs rule: induct_list012)
  case (3 p q ps)
  have "placeholder_numbers (p @ ('' AND '' @ join '' AND '' (q # ps))) =
        placeholder_numbers p @ placeholder_numbers ('' AND '' @ join '' AND '' (q # ps))"
    by (rule placeholder_numbers_append) (simp add: is_digit_def)
  moreover have "placeholder_numbers ('' AND '' @ join '' AND '' (q # ps)) =
        placeholder_numbers (join '' AND '' (q # ps))"
    by (simp add: placeholder_numbers_skip)
  ultimately show ?case using 3 by simp
qed simp_all

subsection \<open>Each step keeps the numbering\<close>

lemma well_numbered_push1:
  "CHR ''$'' \<notin> set pre \<Longrightarrow> well_numbered st \<Longrightarrow> well_numbered (push1 pre v st)"
  by (simp add: well_numbered_def push1_def placeholder_numbers_cond1 [simplified])

lemma well_numbered_push_between:
  "CHR ''$'' \<notin> set field \<Longrightarrow> well_numbered st \<Longrightarrow> well_numbered (push_between field a b st)"
  using placeholder_numbers_between [of field "idx st" "Suc (idx st)"]
  by (simp add: well_numbered_def push_between_def)

lemma well_numbered_push_in:
  assumes plain: "CHR ''$'' \<notin> set field" and wn: "well_numbered st"
  shows "well_numbered (push_in field xs st)"
proof (cases "xs = []")
  case True
  with wn show ?thesis by (simp add: push_in_def)
next
  case False
  let ?ns = "[idx st ..< idx st + length xs]"
  let ?c = "field @ '' IN ('' @ join '','' (map (\<lambda>j. ''$'' @ show_nat j) ?ns) @ '')''"
  have c: "placeholder_numbers ?c = ?ns"
    using plain by (rule placeholder_numbers_in)
  from wn have one: "1 \<le> idx st" and len: "idx st = Suc (length (values_list st))"
    and old: "concat (map placeholder_numbers (conditions st)) = [1 ..< idx st]"
    by (simp_all add: well_numbered_def)
  have upt: "[1 ..< idx st + length xs] = [1 ..< idx st] @ ?ns"
    using one by (rule upt_add_eq_append)
  have "concat (map placeholder_numbers (conditions st @ [?c])) =
        concat (map placeholder_numbers (conditions st)) @ placeholder_numbers ?c"
    by simp
  also have "\<dots> = [1 ..< idx st] @ ?ns"
    by (simp only: old c)
  finally have numbers:
    "concat (map placeholder_numbers (conditions st @ [?c])) = [1 ..< idx st + length xs]"
    by (simp only: upt)
  have next_idx: "idx st + length xs = Suc (length (values_list st @ map Str xs))"
    using len by simp
  have shape: "push_in field xs st =
      st\<lparr>conditions := conditions st @ [?c], values_list := values_list st @ map Str xs,
         idx := idx st + length xs\<rparr>"
    using False by (simp add: push_in_def)
  show ?thesis
    unfolding shape well_numbered_def
    using numbers next_idx by (simp del: upt_Suc map_append concat_append length_append)
qed

lemma well_numbered_if_truthy:
  "(\<And>s. well_numbered (f s st)) \<Longrightarrow> well_numbered st \<Longrightarrow> well_numbered (if_truthy v f st)"
  by (simp add: if_truthy_def split: option.splits)

lemma well_numbered_if_defined:
  "(\<And>s. well_numbered (f s st)) \<Longrightarrow> well_numbered st \<Longrightarrow> well_numbered (if_defined v f st)"
  by (simp add: if_defined_def split: option.splits)

lemma well_numbered_stringField:
  "CHR ''$'' \<notin> set field \<Longrightarrow> well_numbered st \<Longrightarrow> well_numbered (stringField q field st)"
  by (simp add: stringField_def well_numbered_if_truthy well_numbered_push1)

lemma well_numbered_enumField:
  "CHR ''$'' \<notin> set field \<Longrightarrow> well_numbered st \<Longrightarrow> well_numbered (enumField q field st)"
  by (simp add: enumField_def well_numbered_if_truthy well_numbered_push1 well_numbered_push_in)

lemma well_numbered_number_between:
  "CHR ''$'' \<notin> set field \<Longrightarrow> well_numbered st \<Longrightarrow>
   well_numbered (number_between Number field v st)"
  by (simp add: number_between_def well_numbered_push_between split: list.splits)

lemma well_numbered_numberField:
  "CHR ''$'' \<notin> set field \<Longrightarrow> well_numbered st \<Longrightarrow>
   well_numbered (numberField Number q field st)"
  by (simp add: numberField_def well_numbered_if_truthy well_numbered_if_defined
      well_numbered_push1 well_numbered_number_between)

lemma well_numbered_date_between:
  "CHR ''$'' \<notin> set field \<Longrightarrow> well_numbered st \<Longrightarrow> well_numbered (date_between field v st)"
  by (simp add: date_between_def well_numbered_push_between split: list.splits)

lemma well_numbered_dateField:
  "CHR ''$'' \<notin> set field \<Longrightarrow> well_numbered st \<Longrightarrow> well_numbered (dateField q field st)"
  by (simp add: dateField_def well_numbered_if_truthy well_numbered_push1
      well_numbered_date_between)

lemma well_numbered_owner_scope: "well_numbered (owner_scope uid)"
  using placeholder_numbers_cond1 [of "''user_id = ''" 1]
  by (simp add: owner_scope_def well_numbered_def push1_def)

lemma well_numbered_string_filters:
  "well_numbered st \<Longrightarrow> well_numbered (string_filters q st)"
  by (simp add: string_filters_def Let_def well_numbered_stringField)

lemma well_numbered_enum_filters:
  "well_numbered st \<Longrightarrow> well_numbered (enum_filters q st)"
  by (simp add: enum_filters_def Let_def well_numbered_enumField)

lemma well_numbered_number_filters:
  "well_numbered st \<Longrightarrow> well_numbered (number_filters Number q st)"
  by (simp add: number_filters_def Let_def well_numbered_numberField well_numbered_if_defined
      well_numbered_push1)

lemma well_numbered_date_filters:
  "well_numbered st \<Longrightarrow> well_numbered (date_filters q st)"
  by (simp add: date_filters_def Let_def well_numbered_dateField well_numbered_if_truthy
      well_numbered_push1)

lemma well_numbered_boolean_filter:
  "well_numbered st \<Longrightarrow> well_numbered (boolean_filter q st)"
  by (simp add: boolean_filter_def well_numbered_if_defined well_numbered_push1)

lemma well_numbered_build: "well_numbered (build Number uid q)"
  by (simp add: build_def Let_def well_numbered_owner_scope well_numbered_string_filters
      well_numbered_enum_filters well_numbered_number_filters well_numbered_date_filters
      well_numbered_boolean_filter)


subsection \<open>Each step only appends\<close>

lemma grows_refl: "grows st st"
  by (simp add: grows_def)

lemma grows_trans: "grows a b \<Longrightarrow> grows b c \<Longrightarrow> grows a c"
  by (auto simp: grows_def)

lemma grows_push1: "grows st (push1 pre v st)"
  by (simp add: grows_def push1_def)

lemma grows_push_between: "grows st (push_between field a b st)"
  by (simp add: grows_def push_between_def)

lemma grows_push_in: "grows st (push_in field xs st)"
  by (simp add: grows_def push_in_def Let_def)

lemma grows_if_truthy: "(\<And>s. grows st (f s st)) \<Longrightarrow> grows st (if_truthy x f st)"
  by (simp add: if_truthy_def grows_refl split: option.splits)

lemma grows_if_defined: "(\<And>s. grows st (f s st)) \<Longrightarrow> grows st (if_defined x f st)"
  by (simp add: if_defined_def grows_refl split: option.splits)

lemma grows_number_between: "grows st (number_between Number field v st)"
  by (simp add: number_between_def grows_refl grows_push_between split: list.splits)

lemma grows_date_between: "grows st (date_between field v st)"
  by (simp add: date_between_def grows_refl grows_push_between split: list.splits)

lemma grows_stringField: "grows st (stringField q field st)"
  unfolding stringField_def Let_def
  by (intro grows_trans [OF grows_if_truthy grows_if_truthy] grows_push1)

lemma grows_enumField: "grows st (enumField q field st)"
  unfolding enumField_def Let_def
  by (intro grows_trans [OF grows_if_truthy grows_if_truthy] grows_push1 grows_push_in)

lemma grows_numberField: "grows st (numberField Number q field st)"
  unfolding numberField_def Let_def
  by (intro grows_trans [OF grows_if_defined
        grows_trans [OF grows_if_defined grows_trans [OF grows_if_defined grows_if_truthy]]]
      grows_push1 grows_number_between)

lemma grows_dateField: "grows st (dateField q field st)"
  unfolding dateField_def Let_def
  by (intro grows_trans [OF grows_if_truthy
        grows_trans [OF grows_if_truthy grows_trans [OF grows_if_truthy grows_if_truthy]]]
      grows_push1 grows_date_between)

lemma grows_string_filters: "grows st (string_filters q st)"
  unfolding string_filters_def Let_def
  by (intro grows_trans [OF grows_stringField
        grows_trans [OF grows_stringField
          grows_trans [OF grows_stringField grows_trans [OF grows_stringField grows_stringField]]]])

lemma grows_enum_filters: "grows st (enum_filters q st)"
  unfolding enum_filters_def Let_def
  by (intro grows_trans [OF grows_enumField grows_enumField])

lemma grows_number_filters: "grows st (number_filters Number q st)"
  unfolding number_filters_def Let_def
  by (intro grows_trans [OF grows_numberField
        grows_trans [OF grows_numberField grows_trans [OF grows_if_defined grows_if_defined]]]
      grows_push1)

lemma grows_date_filters: "grows st (date_filters q st)"
  unfolding date_filters_def Let_def
  by (intro grows_trans [OF grows_dateField
        grows_trans [OF grows_dateField grows_trans [OF grows_if_truthy grows_if_truthy]]]
      grows_push1)

lemma grows_boolean_filter: "grows st (boolean_filter q st)"
  unfolding boolean_filter_def
  by (intro grows_if_defined grows_push1)

lemma grows_build: "grows (owner_scope uid) (build Number uid q)"
  unfolding build_def Let_def
  by (intro grows_trans [OF grows_string_filters
        grows_trans [OF grows_enum_filters
          grows_trans [OF grows_number_filters
            grows_trans [OF grows_date_filters grows_boolean_filter]]]])

lemma build_starts:
  "\<exists>cs vs. conditions (build Number uid q) = ''user_id = $1'' # cs \<and>
           values_list (build Number uid q) = UserId uid # vs"
  using grows_build [of uid Number q]
  by (simp add: grows_def owner_scope_def push1_def show_nat.simps digit_char_def)

subsection \<open>The clause as a whole\<close>

lemma buildWhereClause_fields:
  "where_text (buildWhereClause Number uid q) = join '' AND '' (conditions (build Number uid q)) \<and>
   bound (buildWhereClause Number uid q) = values_list (build Number uid q)"
  using build_starts [of Number uid q] by (auto simp: buildWhereClause_def Let_def)

text \<open>
  C10. For every query mapping, the \<open>WHERE\<close> text of \<open>buildWhereClause\<close> refers to the
  placeholders \<open>$1, $2, ..., $n\<close> in this order, each once, where \<open>n\<close> is the number of
  bound values, and the first bound value is the caller's user id.
\<close>

theorem where_text_placeholders_consecutive:
  "placeholder_numbers (where_text (buildWhereClause Number uid q)) =
     [1 ..< Suc (length (bound (buildWhereClause Number uid q)))] \<and>
   bound (buildWhereClause Number uid q) \<noteq> [] \<and>
   bound (buildWhereClause Number uid q) ! 0 = UserId uid"
proof -
  have wn: "well_numbered (build Number uid q)"
    by (rule well_numbered_build)
  obtain vs where first: "values_list (build Number uid q) = UserId uid # vs"
    using build_starts [of Number uid q] by blast
  have "placeholder_numbers (join '' AND '' (conditions (build Number uid q))) =
        [1 ..< Suc (length (values_list (build Number uid q)))]"
    using wn by (simp only: placeholder_numbers_join well_numbered_def)
  with first show ?thesis
    by (simp only: buildWhereClause_fields) simp
qed

section \<open>What the builder binds\<close>

lemma binds_grows: "grows st st' \<Longrightarrow> binds st pre v \<Longrightarrow> binds st' pre v"
  by (fastforce simp: grows_def binds_def nth_append)

lemma binds_between_grows:
  "grows st st' \<Longrightarrow> binds_between st field a b \<Longrightarrow> binds_between st' field a b"
  by (fastforce simp: grows_def binds_between_def nth_append)

lemma binds_push1: "well_numbered st \<Longrightarrow> binds (push1 pre v st) pre v"
  by (auto simp: binds_def push1_def well_numbered_def intro!: bexI [of _ "idx st"])

lemma binds_between_push:
  "well_numbered st \<Longrightarrow> binds_between (push_between field a b st) field a b"
  by (auto simp: binds_between_def push_between_def well_numbered_def nth_append
      intro!: bexI [of _ "idx st"])


lemma split_comma_two_nonempty: "split_comma s = a # b # rest \<Longrightarrow> s \<noteq> []"
  by auto

lemma split_comma_plain: "CHR '','' \<notin> set s \<Longrightarrow> split_comma s = [s]"
  by (induction s) auto

lemma numberField_binds:
  assumes wn: "well_numbered st" and plain: "CHR ''$'' \<notin> set field"
  shows "q field = Some s \<Longrightarrow>
           binds (numberField Number q field st) (field @ '' = '') (Num (Number s))"
    and "q (field @ ''_gt'') = Some s \<Longrightarrow>
           binds (numberField Number q field st) (field @ '' > '') (Num (Number s))"
    and "q (field @ ''_lt'') = Some s \<Longrightarrow>
           binds (numberField Number q field st) (field @ '' < '') (Num (Number s))"
    and "q (field @ ''_between'') = Some s \<Longrightarrow> split_comma s = a # b # rest \<Longrightarrow>
           binds_between (numberField Number q field st) field (Num (Number a)) (Num (Number b))"
proof -
  let ?st1 = "if_defined (q field) (\<lambda>v. push1 (field @ '' = '') (Num (Number v))) st"
  let ?st2 = "if_defined (q (field @ ''_gt''))
                (\<lambda>v. push1 (field @ '' > '') (Num (Number v))) ?st1"
  let ?st3 = "if_defined (q (field @ ''_lt''))
                (\<lambda>v. push1 (field @ '' < '') (Num (Number v))) ?st2"
  let ?st4 = "if_truthy (q (field @ ''_between'')) (number_between Number field) ?st3"
  have result: "numberField Number q field st = ?st4"
    by (simp add: numberField_def Let_def)
  have wn1: "well_numbered ?st1"
    using wn plain by (simp add: well_numbered_if_defined well_numbered_push1)
  have wn2: "well_numbered ?st2"
    using wn1 plain by (simp add: well_numbered_if_defined well_numbered_push1)
  have wn3: "well_numbered ?st3"
    using wn2 plain by (simp add: well_numbered_if_defined well_numbered_push1)
  have g12: "grows ?st1 ?st2" by (intro grows_if_defined grows_push1)
  have g23: "grows ?st2 ?st3" by (intro grows_if_defined grows_push1)
  have g34: "grows ?st3 ?st4" by (intro grows_if_truthy grows_number_between)
  {
    assume "q field = Some s"
    then have "binds ?st1 (field @ '' = '') (Num (Number s))"
      using wn by (simp add: if_defined_def binds_push1)
    then show "binds (numberField Number q field st) (field @ '' = '') (Num (Number s))"
      unfolding result using g12 g23 g34 by (blast intro: binds_grows)
  }
  {
    assume "q (field @ ''_gt'') = Some s"
    then have "binds ?st2 (field @ '' > '') (Num (Number s))"
      using wn1 by (simp add: if_defined_def binds_push1)
    then show "binds (numberField Number q field st) (field @ '' > '') (Num (Number s))"
      unfolding result using g23 g34 by (blast intro: binds_grows)
  }
  {
    assume "q (field @ ''_lt'') = Some s"
    then have "binds ?st3 (field @ '' < '') (Num (Number s))"
      using wn2 by (simp add: if_defined_def binds_push1)
    then show "binds (numberField Number q field st) (field @ '' < '') (Num (Number s))"
      unfolding result using g34 by (blast intro: binds_grows)
  }
  {
    assume key: "q (field @ ''_between'') = Some s" and parts: "split_comma s = a # b # rest"
    from parts have "s \<noteq> []" by (rule split_comma_two_nonempty)
    with key parts have "?st4 = push_between field (Num (Number a)) (Num (Number b)) ?st3"
      by (simp add: if_truthy_def number_between_def)
    then show "binds_between (numberField Number q field st) field (Num (Number a)) (Num (Number b))"
      unfolding result using wn3 by (simp add: binds_between_push)
  }
qed

lemma number_filters_binds:
  assumes wn: "well_numbered st"
  shows "q ''score'' = Some s \<Longrightarrow>
           binds (number_filters Number q st) ''score = '' (Num (Number s))"
    and "q ''score_gt'' = Some s \<Longrightarrow>
           binds (number_filters Number q st) ''score > '' (Num (Number s))"
    and "q ''score_lt'' = Some s \<Longrightarrow>
           binds (number_filters Number q st) ''score < '' (Num (Number s))"
    and "q ''lead_value'' = Some s \<Longrightarrow>
           binds (number_filters Number q st) ''lead_value = '' (Num (Number s))"
    and "q ''lead_value_gt'' = Some s \<Longrightarrow>
           binds (number_filters Number q st) ''lead_value > '' (Num (Number s))"
    and "q ''lead_value_lt'' = Some s \<Longrightarrow>
           binds (number_filters Number q st) ''lead_value < '' (Num (Number s))"
    and "q ''value_min'' = Some s \<Longrightarrow>
           binds (number_filters Number q st) ''lead_value >= '' (Num (Number s))"
    and "q ''value_max'' = Some s \<Longrightarrow>
           binds (number_filters Number q st) ''lead_value <= '' (Num (Number s))"
proof -
  let ?a = "numberField Number q ''score'' st"
  let ?b = "numberField Number q ''lead_value'' ?a"
  let ?c = "if_defined (q ''value_min'') (\<lambda>v. push1 ''lead_value >= '' (Num (Number v))) ?b"
  let ?d = "if_defined (q ''value_max'') (\<lambda>v. push1 ''lead_value <= '' (Num (Number v))) ?c"
  have result: "number_filters Number q st = ?d"
    by (simp add: number_filters_def Let_def)
  have plain: "CHR ''$'' \<notin> set ''score''" "CHR ''$'' \<notin> set ''lead_value''"
    by simp_all
  have wna: "well_numbered ?a"
    using wn by (simp add: well_numbered_numberField)
  have wnb: "well_numbered ?b"
    using wna by (simp add: well_numbered_numberField)
  have wnc: "well_numbered ?c"
    using wnb by (simp add: well_numbered_if_defined well_numbered_push1)
  have gab: "grows ?a ?b" by (rule grows_numberField)
  have gbc: "grows ?b ?c" by (intro grows_if_defined grows_push1)
  have gcd: "grows ?c ?d" by (intro grows_if_defined grows_push1)
  have from_a: "binds ?a p v \<Longrightarrow> binds ?d p v" for p v
    using gab gbc gcd by (blast intro: binds_grows)
  have from_b: "binds ?b p v \<Longrightarrow> binds ?d p v" for p v
    using gbc gcd by (blast intro: binds_grows)
  have from_c: "binds ?c p v \<Longrightarrow> binds ?d p v" for p v
    using gcd by (blast intro: binds_grows)
  note score = numberField_binds [where st = st and field = "''score''" and q = q
      and Number = Number and s = s, OF wn plain(1), simplified]
  note lead_value = numberField_binds [where st = ?a and field = "''lead_value''" and q = q
      and Number = Number and s = s, OF wna plain(2), simplified]
  show "q ''score'' = Some s \<Longrightarrow>
          binds (number_filters Number q st) ''score = '' (Num (Number s))"
    unfolding result by (rule from_a) (rule score(1))
  show "q ''score_gt'' = Some s \<Longrightarrow>
          binds (number_filters Number q st) ''score > '' (Num (Number s))"
    unfolding result by (rule from_a) (rule score(2))
  show "q ''score_lt'' = Some s \<Longrightarrow>
          binds (number_filters Number q st) ''score < '' (Num (Number s))"
    unfolding result by (rule from_a) (rule score(3))
  show "q ''lead_value'' = Some s \<Longrightarrow>
          binds (number_filters Number q st) ''lead_value = '' (Num (Number s))"
    unfolding result by (rule from_b) (rule lead_value(1))
  show "q ''lead_value_gt'' = Some s \<Longrightarrow>
          binds (number_filters Number q st) ''lead_value > '' (Num (Number s))"
    unfolding result by (rule from_b) (rule lead_value(2))
  show "q ''lead_value_lt'' = Some s \<Longrightarrow>
          binds (number_filters Number q st) ''lead_value < '' (Num (Number s))"
    unfolding result by (rule from_b) (rule lead_value(3))
  show "q ''value_min'' = Some s \<Longrightarrow>
          binds (number_filters Number q st) ''lead_value >= '' (Num (Number s))"
    unfolding result using wnb by (intro from_c) (simp add: if_defined_def binds_push1)
  show "q ''value_max'' = Some s \<Longrightarrow>
          binds (number_filters Number q st) ''lead_value <= '' (Num (Number s))"
    unfolding result using wnc by (simp add: if_defined_def binds_push1)
qed

lemma number_operators_cases:
  assumes "(k, pre) \<in> set number_operators"
  shows "(k = ''score'' \<and> pre = ''score = '') \<or> (k = ''score_gt'' \<and> pre = ''score > '') \<or>
         (k = ''score_lt'' \<and> pre = ''score < '') \<or>
         (k = ''lead_value'' \<and> pre = ''lead_value = '') \<or>
         (k = ''lead_value_gt'' \<and> pre = ''lead_value > '') \<or>
         (k = ''lead_value_lt'' \<and> pre = ''lead_value < '') \<or>
         (k = ''value_min'' \<and> pre = ''lead_value >= '') \<or>
         (k = ''value_max'' \<and> pre = ''lead_value <= '')"
  using assms unfolding number_operators_def
  by (simp only: set_simps insert_iff empty_iff prod.inject simp_thms)

lemma number_filters_binds_between:
  assumes wn: "well_numbered st" and field: "field = ''score'' \<or> field = ''lead_value''"
    and key: "q (field @ ''_between'') = Some s" and parts: "split_comma s = a # b # rest"
  shows "binds_between (number_filters Number q st) field (Num (Number a)) (Num (Number b))"
proof -
  let ?a = "numberField Number q ''score'' st"
  let ?b = "numberField Number q ''lead_value'' ?a"
  have wna: "well_numbered ?a"
    using wn by (simp add: well_numbered_numberField)
  have gab: "grows ?a ?b" by (rule grows_numberField)
  have gb: "grows ?b (number_filters Number q st)"
    unfolding number_filters_def Let_def
    by (intro grows_trans [OF grows_if_defined grows_if_defined] grows_push1)
  from field show ?thesis
  proof
    assume f: "field = ''score''"
    have "binds_between ?a ''score'' (Num (Number a)) (Num (Number b))"
      using numberField_binds(4) [where st = st and field = "''score''" and q = q and s = s
          and a = a and b = b and rest = rest and Number = Number, OF wn] key parts f
      by simp
    with f show ?thesis
      using gab gb by (blast intro: binds_between_grows)
  next
    assume f: "field = ''lead_value''"
    have "binds_between ?b ''lead_value'' (Num (Number a)) (Num (Number b))"
      using numberField_binds(4) [where st = ?a and field = "''lead_value''" and q = q
          and s = s and a = a and b = b and rest = rest and Number = Number, OF wna] key parts f
      by simp
    with f show ?thesis
      using gb by (blast intro: binds_between_grows)
  qed
qed

lemma well_numbered_before_numbers:
  "well_numbered (enum_filters q (string_filters q (owner_scope uid)))"
  by (simp add: well_numbered_owner_scope well_numbered_string_filters well_numbered_enum_filters)

lemma grows_after_numbers: "grows st (boolean_filter q (date_filters q st))"
  by (intro grows_trans [OF grows_date_filters grows_boolean_filter])

lemma build_binds_number:
  assumes op: "(k, pre) \<in> set number_operators" and key: "q k = Some s"
  shows "binds (build Number uid q) pre (Num (Number s))"
proof -
  let ?st = "enum_filters q (string_filters q (owner_scope uid))"
  note facts = number_filters_binds [where st = ?st and q = q and s = s and Number = Number,
      OF well_numbered_before_numbers]
  have "binds (number_filters Number q ?st) pre (Num (Number s))"
    using number_operators_cases [OF op] key
    by (elim disjE conjE) (simp_all only: facts)
  then show ?thesis
    unfolding build_def Let_def using grows_after_numbers by (blast intro: binds_grows)
qed

lemma build_binds_between:
  assumes field: "field = ''score'' \<or> field = ''lead_value''"
    and key: "q (field @ ''_between'') = Some s" and parts: "split_comma s = a # b # rest"
  shows "binds_between (build Number uid q) field (Num (Number a)) (Num (Number b))"
proof -
  let ?st = "enum_filters q (string_filters q (owner_scope uid))"
  have "binds_between (number_filters Number q ?st) field (Num (Number a)) (Num (Number b))"
    using well_numbered_before_numbers field key parts by (rule number_filters_binds_between)
  then show ?thesis
    unfolding build_def Let_def using grows_after_numbers by (blast intro: binds_between_grows)
qed

lemma build_binds_boolean:
  assumes "q ''is_qualified'' = Some s"
  shows "binds (build Number uid q) ''is_qualified = '' (Bool (toLowerCase s = ''true''))"
proof -
  let ?st = "date_filters q (number_filters Number q
               (enum_filters q (string_filters q (owner_scope uid))))"
  have "well_numbered ?st"
    by (simp add: well_numbered_before_numbers well_numbered_number_filters
        well_numbered_date_filters)
  then show ?thesis
    using assms by (simp add: build_def Let_def boolean_filter_def if_defined_def binds_push1)
qed


lemma build_between_without_comma:
  assumes field: "field = ''score'' \<or> field = ''lead_value''"
    and key: "q (field @ ''_between'') = Some s" and comma: "CHR '','' \<notin> set s"
  shows "build Number uid (q(field @ ''_between'' := None)) = build Number uid q"
proof -
  have skip: "if_truthy (Some s) (number_between Number f) st = st" for f and st :: "'a builder"
    using comma by (simp add: if_truthy_def number_between_def split_comma_plain)
  have none: "if_truthy None g st = st" for g :: "string \<Rightarrow> 'a builder \<Rightarrow> 'a builder" and st
    by (simp add: if_truthy_def)
  from field show ?thesis
  proof
    assume "field = ''score''"
    with key have k: "q ''score_between'' = Some s" by simp
    have "build Number uid (q(''score_between'' := None)) = build Number uid q"
      by (simp add: build_def string_filters_def enum_filters_def number_filters_def
          date_filters_def boolean_filter_def stringField_def enumField_def numberField_def
          dateField_def Let_def k skip none)
    with \<open>field = ''score''\<close> show ?thesis by simp
  next
    assume "field = ''lead_value''"
    with key have k: "q ''lead_value_between'' = Some s" by simp
    have "build Number uid (q(''lead_value_between'' := None)) = build Number uid q"
      by (simp add: build_def string_filters_def enum_filters_def number_filters_def
          date_filters_def boolean_filter_def stringField_def enumField_def numberField_def
          dateField_def Let_def k skip none)
    with \<open>field = ''lead_value''\<close> show ?thesis by simp
  qed
qed

section \<open>Owner scoping\<close>

lemma where_holds_owner:
  assumes "where_holds pg (''user_id = $1'' # cs) (UserId uid # vs) r"
  shows "user_id r = uid"
  using assms by (simp add: where_holds_def condition_holds_def)

lemma build_where_holds_owner:
  assumes "where_holds pg (conditions (build Number uid q)) (values_list (build Number uid q)) r"
  shows "user_id r = uid"
proof -
  obtain cs vs where "conditions (build Number uid q) = ''user_id = $1'' # cs"
    and "values_list (build Number uid q) = UserId uid # vs"
    using build_starts [of Number uid q] by blast
  with assms show ?thesis by (simp add: where_holds_owner)
qed

lemma page_subset:
  "set (take n (drop m (rev (sort_key f (filter P xs))))) \<subseteq> {x \<in> set xs. P x}"
proof -
  have "set (take n (drop m (rev (sort_key f (filter P xs))))) \<subseteq> set (rev (sort_key f (filter P xs)))"
    by (meson set_take_subset set_drop_subset subset_trans)
  then show ?thesis by auto
qed

lemma get_leads_owned:
  "r \<in> set (returned_leads (response (get_leads pg Number d uid q))) \<Longrightarrow> user_id r = uid"
proof -
  assume r: "r \<in> set (returned_leads (response (get_leads pg Number d uid q)))"
  let ?w = "buildWhereClause Number uid q"
  let ?cs = "conditions (build Number uid q)"
  from r obtain rows where
    rows: "list_leads pg d (list_statement ?w (limit_of q) (offset_of q)) ?cs (bound ?w)
             (limit_of q) (offset_of q) = Inr rows" and mem: "r \<in> set rows"
    by (auto simp: get_leads_def Let_def server_error_def list_payload_def split: sum.splits)
  from rows have "set rows \<subseteq> {x \<in> set (leads_table d). where_holds pg ?cs (bound ?w) x}"
    using page_subset [of "nat (limit_of q)" "nat (offset_of q)" created_at
        "where_holds pg ?cs (bound ?w)" "leads_table d"]
    by (auto simp: list_leads_def split: if_splits)
  with mem have "where_holds pg ?cs (values_list (build Number uid q)) r"
    by (auto simp: buildWhereClause_fields)
  then show ?thesis by (rule build_where_holds_owner)
qed

lemma get_lead_owned:
  "r \<in> set (returned_leads (response (get_lead pg d uid lid))) \<Longrightarrow> user_id r = uid"
  by (auto simp: get_lead_def Let_def select_lead_def server_error_def not_found_def
      id_and_owner_def filter_eq_Cons_iff split: sum.splits list.splits if_splits)

lemma post_lead_owned:
  "r \<in> set (returned_leads (response (post_lead pg now d uid b))) \<Longrightarrow> user_id r = uid"
  by (auto simp: post_lead_def Let_def insert_lead_row_def server_error_def bad_request_def
      first_row_def split: sum.splits list.splits if_splits option.splits)

lemma put_lead_owned:
  "r \<in> set (returned_leads (response (put_lead pg now d uid lid b))) \<Longrightarrow> user_id r = uid"
  by (auto simp: put_lead_def Let_def select_lead_def update_lead_rows_def server_error_def
      bad_request_def not_found_def first_row_def id_and_owner_def set_columns_def
      filter_eq_Cons_iff
      split: sum.splits list.splits if_splits option.splits)

lemma delete_lead_owned:
  "returned_leads (response (delete_lead pg d uid lid)) = []"
  by (auto simp: delete_lead_def Let_def delete_lead_rows_def server_error_def not_found_def
      split: sum.splits list.splits if_splits)

subsection \<open>The rows of other users are never written\<close>

lemma others_get_leads: "others_rows uid (store (get_leads pg Number d uid q)) = others_rows uid d"
  by (simp add: get_leads_def Let_def split: sum.splits)

lemma others_get_lead: "others_rows uid (store (get_lead pg d uid lid)) = others_rows uid d"
  by (simp add: get_lead_def Let_def split: sum.splits list.splits)

lemma others_post_lead: "others_rows uid (store (post_lead pg now d uid b)) = others_rows uid d"
  by (auto simp: post_lead_def Let_def insert_lead_row_def others_rows_def
      split: sum.splits if_splits)

lemma filter_map_fixed:
  "(\<And>x. P (f x) = P x) \<Longrightarrow> (\<And>x. P x \<Longrightarrow> f x = x) \<Longrightarrow> filter P (map f xs) = filter P xs"
  by (induction xs) auto

lemma others_update:
  "filter (\<lambda>r. user_id r \<noteq> uid)
     (map (\<lambda>r. if id_and_owner pg lid uid r then set_columns now vs r else r) rows) =
   filter (\<lambda>r. user_id r \<noteq> uid) rows"
  by (rule filter_map_fixed) (auto simp: id_and_owner_def set_columns_def)

lemma others_put_lead:
  "others_rows uid (store (put_lead pg now d uid lid b)) = others_rows uid d"
  by (auto simp: put_lead_def Let_def update_lead_rows_def others_rows_def others_update
      split: sum.splits list.splits if_splits)

lemma others_delete:
  "filter (\<lambda>r. \<not> id_and_owner pg lid uid r \<and> user_id r \<noteq> uid) rows =
   filter (\<lambda>r. user_id r \<noteq> uid) rows"
  by (rule filter_cong) (auto simp: id_and_owner_def)

lemma others_delete_lead:
  "others_rows uid (store (delete_lead pg d uid lid)) = others_rows uid d"
  by (auto simp: delete_lead_def Let_def delete_lead_rows_def others_rows_def others_delete
      split: sum.splits list.splits if_splits)

subsection \<open>What the handlers return\<close>

lemma get_lead_matches:
  "r \<in> set (returned_leads (response (get_lead pg d uid lid))) \<Longrightarrow> id_and_owner pg lid uid r"
  by (auto simp: get_lead_def Let_def select_lead_def server_error_def not_found_def
      filter_eq_Cons_iff split: sum.splits list.splits if_splits)

lemma put_lead_matches:
  "r \<in> set (returned_leads (response (put_lead pg now d uid lid b))) \<Longrightarrow>
   id_and_owner pg lid uid r"
  by (auto simp: put_lead_def Let_def select_lead_def update_lead_rows_def server_error_def
      bad_request_def not_found_def first_row_def id_and_owner_def set_columns_def
      filter_eq_Cons_iff
      split: sum.splits list.splits if_splits option.splits)

subsection \<open>The statements the handlers issue\<close>

lemma column_values_length: "length (column_values b) = 13"
  by (simp add: column_values_def)

lemma select_is_not_update: "sql_select_id \<noteq> sql_update"
  by (simp add: sql_select_id_def sql_update_def)

lemma put_lead_queries:
  "queries (put_lead pg now d uid lid b) = [(sql_select_id, [Str lid, UserId uid])] \<or>
   (\<not> missing_required b \<and>
    queries (put_lead pg now d uid lid b) =
      [(sql_select_id, [Str lid, UserId uid]),
       (sql_update, column_values b @ [Str lid, UserId uid])])"
  by (simp add: put_lead_def Let_def split: sum.splits list.splits prod.splits)

lemma get_leads_queries:
  "queries (get_leads pg Number d uid q) = [count_statement (buildWhereClause Number uid q)] \<or>
   queries (get_leads pg Number d uid q) =
     [count_statement (buildWhereClause Number uid q),
      list_statement (buildWhereClause Number uid q) (limit_of q) (offset_of q)]"
  by (simp add: get_leads_def Let_def split: sum.splits)

section \<open>Ownership\<close>

text \<open>
  C1. Every database access is scoped to the caller. The first condition
  \<open>buildWhereClause\<close> collects is \<open>user_id = $1\<close> and the first value it binds is the
  caller's user id. The statements of \<open>GET\<close>, \<open>PUT\<close> and \<open>DELETE /leads/:id\<close> bind the path's
  id and the caller's user id to \<open>id = $1 AND user_id = $2\<close> (the \<open>UPDATE\<close> to
  \<open>id=$14 AND user_id=$15\<close>), and a lead they return matches both. Every lead any of the
  five handlers returns is owned by the caller, and no handler changes a row owned by
  someone else.
\<close>

theorem owner_scoped:
  "(\<exists>cs vs. conditions (build Number uid q) = ''user_id = $1'' # cs \<and>
      where_text (buildWhereClause Number uid q) = join '' AND '' (''user_id = $1'' # cs) \<and>
      bound (buildWhereClause Number uid q) = UserId uid # vs) \<and>
   queries (get_lead pg d uid lid) = [(sql_select_lead, [Str lid, UserId uid])] \<and>
   (\<exists>rest. queries (put_lead pg now d uid lid b) =
      (sql_select_id, [Str lid, UserId uid]) # rest) \<and>
   (\<forall>stmt\<in>set (queries (put_lead pg now d uid lid b)).
      fst stmt = sql_update \<longrightarrow> drop 13 (snd stmt) = [Str lid, UserId uid]) \<and>
   queries (delete_lead pg d uid lid) = [(sql_delete, [Str lid, UserId uid])] \<and>
   (\<forall>r\<in>set (returned_leads (response (get_leads pg Number d uid q))). user_id r = uid) \<and>
   (\<forall>r\<in>set (returned_leads (response (get_lead pg d uid lid))).
      id_and_owner pg lid uid r \<and> user_id r = uid) \<and>
   (\<forall>r\<in>set (returned_leads (response (post_lead pg now d uid b))). user_id r = uid) \<and>
   (\<forall>r\<in>set (returned_leads (response (put_lead pg now d uid lid b))).
      id_and_owner pg lid uid r \<and> user_id r = uid) \<and>
   returned_leads (response (delete_lead pg d uid lid)) = [] \<and>
   others_rows uid (store (get_leads pg Number d uid q)) = others_rows uid d \<and>
   others_rows uid (store (get_lead pg d uid lid)) = others_rows uid d \<and>
   others_rows uid (store (post_lead pg now d uid b)) = others_rows uid d \<and>
   others_rows uid (store (put_lead pg now d uid lid b)) = others_rows uid d \<and>
   others_rows uid (store (delete_lead pg d uid lid)) = others_rows uid d"
proof -
  have clause: "\<exists>cs vs. conditions (build Number uid q) = ''user_id = $1'' # cs \<and>
      where_text (buildWhereClause Number uid q) = join '' AND '' (''user_id = $1'' # cs) \<and>
      bound (buildWhereClause Number uid q) = UserId uid # vs"
    using build_starts [of Number uid q] by (auto simp: buildWhereClause_fields)
  have q1: "queries (get_lead pg d uid lid) = [(sql_select_lead, [Str lid, UserId uid])]"
    by (simp add: get_lead_def Let_def split: sum.splits list.splits)
  have q2: "\<exists>rest. queries (put_lead pg now d uid lid b) =
      (sql_select_id, [Str lid, UserId uid]) # rest"
    using put_lead_queries [of pg now d uid lid b] by auto
  have q3: "queries (delete_lead pg d uid lid) = [(sql_delete, [Str lid, UserId uid])]"
    by (simp add: delete_lead_def Let_def split: sum.splits list.splits prod.splits)
  have q4: "\<forall>stmt\<in>set (queries (put_lead pg now d uid lid b)).
      fst stmt = sql_update \<longrightarrow> drop 13 (snd stmt) = [Str lid, UserId uid]"
    using put_lead_queries [of pg now d uid lid b] select_is_not_update
    by (auto simp: column_values_length)
  show ?thesis
    using clause q1 q2 q3 q4 get_leads_owned [of _ pg Number d uid q] get_lead_owned [of _ pg d uid lid]
      post_lead_owned [of _ pg now d uid b] put_lead_owned [of _ pg now d uid lid b]
      get_lead_matches [of _ pg d uid lid] put_lead_matches [of _ pg now d uid lid b]
    by (simp only: delete_lead_owned others_get_leads others_get_lead others_post_lead
        others_put_lead others_delete_lead) blast
qed

theorem owner_scoped_witness:
  "returned_leads (response (get_leads sample_pg sample_Number sample_db 1 Map.empty)) =
     [lead_of_ada, lead_of_ada] \<and>
   returned_leads (response (get_lead sample_pg sample_db 1 ''1'')) = [lead_of_ada] \<and>
   returned_leads (response (get_lead sample_pg sample_db 1 ''2'')) = [] \<and>
   user_id lead_of_ada = 1 \<and>
   map user_id (returned_leads (response (post_lead sample_pg 30 sample_db 1 sample_body))) = [1] \<and>
   map user_id (returned_leads (response (put_lead sample_pg 30 sample_db 1 ''1'' sample_body))) =
     [1] \<and>
   map fst (queries (put_lead sample_pg 30 sample_db 1 ''1'' sample_body)) =
     [sql_select_id, sql_update] \<and>
   drop 13 (snd (queries (put_lead sample_pg 30 sample_db 1 ''1'' sample_body) ! 1)) =
     [Str ''1'', UserId 1] \<and>
   others_rows 1 (store (delete_lead sample_pg sample_db 1 ''1'')) = [lead_of_bob]"
proof -
  have a: "returned_leads (response (get_leads sample_pg sample_Number sample_db 1 Map.empty)) =
     [lead_of_ada, lead_of_ada]"
    by code_simp
  have b: "returned_leads (response (get_lead sample_pg sample_db 1 ''1'')) = [lead_of_ada]"
    by code_simp
  have c: "returned_leads (response (get_lead sample_pg sample_db 1 ''2'')) = []"
    by code_simp
  have d: "others_rows 1 sample_db = [lead_of_bob]"
    by code_simp
  have e: "map user_id (returned_leads (response (post_lead sample_pg 30 sample_db 1 sample_body))) =
     [1]"
    by code_simp
  have f: "map user_id
     (returned_leads (response (put_lead sample_pg 30 sample_db 1 ''1'' sample_body))) = [1]"
    by code_simp
  have g: "map fst (queries (put_lead sample_pg 30 sample_db 1 ''1'' sample_body)) =
     [sql_select_id, sql_update]"
    by code_simp
  have h: "drop 13 (snd (queries (put_lead sample_pg 30 sample_db 1 ''1'' sample_body) ! 1)) =
     [Str ''1'', UserId 1]"
    by code_simp
  from owner_scoped [of sample_Number 1 Map.empty sample_pg sample_db "''1''" 30 sample_body]
  have "\<forall>r\<in>set (returned_leads (response (get_lead sample_pg sample_db 1 ''1''))).
      id_and_owner sample_pg ''1'' 1 r \<and> user_id r = 1"
    and "others_rows 1 (store (delete_lead sample_pg sample_db 1 ''1'')) = others_rows 1 sample_db"
    by blast+
  with a b c d e f g h show ?thesis by simp
qed

section \<open>Coercion in the filter builder\<close>

text \<open>
  C6, as stated, at a \<open>_between\<close> value without a comma: \<open>score_between=abc\<close> is not
  passed through \<open>Number\<close>; no condition is added and nothing but the user id is bound.
\<close>

theorem between_without_comma_counterexample:
  "buildWhereClause sample_Number (7::nat) [''score_between'' \<mapsto> ''abc''] =
     \<lparr>where_text = ''user_id = $1'', bound = [UserId 7]\<rparr>"
  by code_simp

text \<open>
  C6, amended. \<open>buildWhereClause\<close> returns a clause and a value list for every query
  mapping: the joined conditions and the collected values. A value of a single-valued
  numeric filter (\<open>score\<close>, \<open>lead_value\<close>, their \<open>_gt\<close> and \<open>_lt\<close>, \<open>value_min\<close>,
  \<open>value_max\<close>) is bound as \<open>Number\<close> of the text, whatever the text. A \<open>_between\<close> value
  with a comma binds \<open>Number\<close> of its first two parts; one without a comma changes nothing:
  the result is that of the query without the key. An \<open>is_qualified\<close> value is bound as
  the boolean "its lower-case form is \<open>true\<close>", so as \<open>false\<close> for every other text.
\<close>

theorem coerced_not_rejected:
  "((k, pre) \<in> set number_operators \<and> q k = Some s \<longrightarrow>
      binds (build Number uid q) pre (Num (Number s))) \<and>
   ((field = ''score'' \<or> field = ''lead_value'') \<and> q (field @ ''_between'') = Some s \<and>
    split_comma s = a # b # rest \<longrightarrow>
      binds_between (build Number uid q) field (Num (Number a)) (Num (Number b))) \<and>
   ((field = ''score'' \<or> field = ''lead_value'') \<and> q (field @ ''_between'') = Some s \<and>
    CHR '','' \<notin> set s \<longrightarrow>
      buildWhereClause Number uid q = buildWhereClause Number uid (q(field @ ''_between'' := None))) \<and>
   (q ''is_qualified'' = Some s \<longrightarrow>
      binds (build Number uid q) ''is_qualified = '' (Bool (toLowerCase s = ''true''))) \<and>
   (q ''is_qualified'' = Some s \<and> toLowerCase s \<noteq> ''true'' \<longrightarrow>
      binds (build Number uid q) ''is_qualified = '' (Bool False)) \<and>
   where_text (buildWhereClause Number uid q) = join '' AND '' (conditions (build Number uid q)) \<and>
   bound (buildWhereClause Number uid q) = values_list (build Number uid q)"
proof (intro conjI impI)
  assume "(k, pre) \<in> set number_operators \<and> q k = Some s"
  then show "binds (build Number uid q) pre (Num (Number s))"
    using build_binds_number [of k pre q s Number uid] by blast
next
  assume "(field = ''score'' \<or> field = ''lead_value'') \<and> q (field @ ''_between'') = Some s \<and>
    split_comma s = a # b # rest"
  then show "binds_between (build Number uid q) field (Num (Number a)) (Num (Number b))"
    using build_binds_between [of field q s a b rest Number uid] by blast
next
  assume "(field = ''score'' \<or> field = ''lead_value'') \<and> q (field @ ''_between'') = Some s \<and>
    CHR '','' \<notin> set s"
  then have "build Number uid (q(field @ ''_between'' := None)) = build Number uid q"
    using build_between_without_comma [of field q s Number uid] by blast
  then show "buildWhereClause Number uid q =
      buildWhereClause Number uid (q(field @ ''_between'' := None))"
    by (simp add: buildWhereClause_def)
next
  assume "q ''is_qualified'' = Some s"
  then show "binds (build Number uid q) ''is_qualified = '' (Bool (toLowerCase s = ''true''))"
    by (rule build_binds_boolean)
next
  assume "q ''is_qualified'' = Some s \<and> toLowerCase s \<noteq> ''true''"
  then show "binds (build Number uid q) ''is_qualified = '' (Bool False)"
    using build_binds_boolean [of q s Number uid] by simp
qed (simp_all add: buildWhereClause_fields)

theorem coerced_not_rejected_witness:
  "build sample_Number (7::nat)
     [''score'' \<mapsto> ''abc'', ''lead_value_between'' \<mapsto> ''1,x'', ''score_between'' \<mapsto> ''abc'',
      ''is_qualified'' \<mapsto> ''yes''] =
     \<lparr>conditions = [''user_id = $1'', ''score = $2'', ''lead_value BETWEEN $3 AND $4'',
                     ''is_qualified = $5''],
      values_list = [UserId 7, Num NaN, Num (Fin 1), Num NaN, Bool False],
      idx = 6\<rparr> \<and>
   binds (build sample_Number (7::nat)
     [''score'' \<mapsto> ''abc'', ''lead_value_between'' \<mapsto> ''1,x'', ''score_between'' \<mapsto> ''abc'',
      ''is_qualified'' \<mapsto> ''yes'']) ''score = '' (Num NaN) \<and>
   binds_between (build sample_Number (7::nat)
     [''score'' \<mapsto> ''abc'', ''lead_value_between'' \<mapsto> ''1,x'', ''score_between'' \<mapsto> ''abc'',
      ''is_qualified'' \<mapsto> ''yes'']) ''lead_value'' (Num (Fin 1)) (Num NaN) \<and>
   binds (build sample_Number (7::nat)
     [''score'' \<mapsto> ''abc'', ''lead_value_between'' \<mapsto> ''1,x'', ''score_between'' \<mapsto> ''abc'',
      ''is_qualified'' \<mapsto> ''yes'']) ''is_qualified = '' (Bool False) \<and>
   buildWhereClause sample_Number (7::nat)
     [''score'' \<mapsto> ''abc'', ''lead_value_between'' \<mapsto> ''1,x'', ''score_between'' \<mapsto> ''abc'',
      ''is_qualified'' \<mapsto> ''yes''] =
   buildWhereClause sample_Number (7::nat)
     [''score'' \<mapsto> ''abc'', ''lead_value_between'' \<mapsto> ''1,x'', ''is_qualified'' \<mapsto> ''yes'']"
proof -
  let ?q = "[''score'' \<mapsto> ''abc'', ''lead_value_between'' \<mapsto> ''1,x'',
             ''score_between'' \<mapsto> ''abc'', ''is_qualified'' \<mapsto> ''yes''] :: query"
  have run: "build sample_Number (7::nat) ?q =
     \<lparr>conditions = [''user_id = $1'', ''score = $2'', ''lead_value BETWEEN $3 AND $4'',
                     ''is_qualified = $5''],
      values_list = [UserId 7, Num NaN, Num (Fin 1), Num NaN, Bool False],
      idx = 6\<rparr>"
    by code_simp
  have n1: "sample_Number ''abc'' = NaN" and n2: "sample_Number ''1'' = Fin 1"
    and n3: "sample_Number ''x'' = NaN"
    by code_simp+
  have sp: "split_comma ''1,x'' = [''1'', ''x'']" by code_simp
  have lc: "toLowerCase ''yes'' \<noteq> ''true''" by code_simp
  have same: "?q(''score_between'' := None) =
      [''score'' \<mapsto> ''abc'', ''lead_value_between'' \<mapsto> ''1,x'', ''is_qualified'' \<mapsto> ''yes'']"
    by (rule ext) simp
  have ops: "(''score'', ''score = '') \<in> set number_operators"
    by (simp add: number_operators_def)
  have b1: "binds (build sample_Number (7::nat) ?q) ''score = '' (Num (sample_Number ''abc''))"
    using coerced_not_rejected [where k = "''score''" and pre = "''score = ''" and q = ?q
        and s = "''abc''" and Number = sample_Number and uid = "7::nat"] ops
    by simp
  have b2: "binds_between (build sample_Number (7::nat) ?q) ''lead_value''
              (Num (sample_Number ''1'')) (Num (sample_Number ''x''))"
    using coerced_not_rejected [where q = ?q and s = "''1,x''" and Number = sample_Number
        and uid = "7::nat" and field = "''lead_value''" and a = "''1''" and b = "''x''"
        and rest = "[]"] sp
    by simp
  have b3: "binds (build sample_Number (7::nat) ?q) ''is_qualified = '' (Bool False)"
    using coerced_not_rejected [where q = ?q and s = "''yes''" and Number = sample_Number
        and uid = "7::nat"] lc
    by simp
  have b4: "buildWhereClause sample_Number (7::nat) ?q =
      buildWhereClause sample_Number 7 (?q(''score_between'' := None))"
    using coerced_not_rejected [where q = ?q and s = "''abc''" and Number = sample_Number
        and uid = "7::nat" and field = "''score''"]
    by simp
  show ?thesis
    using run b1 b2 b3 b4 by (simp only: n1 n2 n3 same)
qed

section \<open>Leads that are not the caller's\<close>

text \<open>
  C2, as stated, at an id that is no integer: no lead with the id \<open>abc\<close> is owned by user 1,
  yet \<open>GET\<close>, \<open>PUT\<close> and \<open>DELETE /leads/abc\<close> answer 500, not 404.
\<close>

theorem not_found_counterexample:
  "filter (id_and_owner sample_pg ''abc'' 1) (leads_table sample_db) = [] \<and>
   response (get_lead sample_pg sample_db 1 ''abc'') =
     \<lparr>status = 500, body = ErrorBody ''Server error''\<rparr> \<and>
   response (put_lead sample_pg 30 sample_db 1 ''abc'' sample_body) =
     \<lparr>status = 500, body = ErrorBody ''Server error''\<rparr> \<and>
   response (delete_lead sample_pg sample_db 1 ''abc'') =
     \<lparr>status = 500, body = ErrorBody ''Server error''\<rparr>"
  by code_simp

lemma no_match:
  "\<forall>r\<in>set rows. \<not> id_and_owner pg lid uid r \<Longrightarrow> filter (id_and_owner pg lid uid) rows = []"
  by (simp add: filter_empty_conv)

lemma keep_all:
  "\<forall>r\<in>set rows. \<not> id_and_owner pg lid uid r \<Longrightarrow>
   filter (\<lambda>r. \<not> id_and_owner pg lid uid r) rows = rows"
  by (simp add: filter_id_conv)

text \<open>
  C2, amended. For \<open>GET\<close>, \<open>PUT\<close> and \<open>DELETE /leads/:id\<close>: when the statement runs (the
  database reads the id as an integer and raises no error) and no row has both this id and
  the caller as owner, in particular when the lead is someone else's, the answer is 404 with
  \<open>{error: 'Lead not found'}\<close>; when the statement raises, the answer is 500 with
  \<open>{error: 'Server error'}\<close>. In both cases the database is left exactly as it was.
\<close>

theorem not_found_when_not_owned:
  "(run_by_id pg d (sql_select_lead, [Str lid, UserId uid]) lid \<and>
    (\<forall>r\<in>set (leads_table d). \<not> id_and_owner pg lid uid r) \<longrightarrow>
      get_lead pg d uid lid =
        \<lparr>response = \<lparr>status = 404, body = ErrorBody ''Lead not found''\<rparr>, store = d,
         queries = [(sql_select_lead, [Str lid, UserId uid])]\<rparr>) \<and>
   (run_by_id pg d (sql_select_id, [Str lid, UserId uid]) lid \<and>
    (\<forall>r\<in>set (leads_table d). \<not> id_and_owner pg lid uid r) \<longrightarrow>
      put_lead pg now d uid lid b =
        \<lparr>response = \<lparr>status = 404, body = ErrorBody ''Lead not found''\<rparr>, store = d,
         queries = [(sql_select_id, [Str lid, UserId uid])]\<rparr>) \<and>
   (run_by_id pg d (sql_delete, [Str lid, UserId uid]) lid \<and>
    (\<forall>r\<in>set (leads_table d). \<not> id_and_owner pg lid uid r) \<longrightarrow>
      delete_lead pg d uid lid =
        \<lparr>response = \<lparr>status = 404, body = ErrorBody ''Lead not found''\<rparr>, store = d,
         queries = [(sql_delete, [Str lid, UserId uid])]\<rparr>) \<and>
   (\<not> run_by_id pg d (sql_select_lead, [Str lid, UserId uid]) lid \<longrightarrow>
      get_lead pg d uid lid =
        \<lparr>response = \<lparr>status = 500, body = ErrorBody ''Server error''\<rparr>, store = d,
         queries = [(sql_select_lead, [Str lid, UserId uid])]\<rparr>) \<and>
   (\<not> run_by_id pg d (sql_select_id, [Str lid, UserId uid]) lid \<longrightarrow>
      put_lead pg now d uid lid b =
        \<lparr>response = \<lparr>status = 500, body = ErrorBody ''Server error''\<rparr>, store = d,
         queries = [(sql_select_id, [Str lid, UserId uid])]\<rparr>) \<and>
   (\<not> run_by_id pg d (sql_delete, [Str lid, UserId uid]) lid \<longrightarrow>
      delete_lead pg d uid lid =
        \<lparr>response = \<lparr>status = 500, body = ErrorBody ''Server error''\<rparr>, store = d,
         queries = [(sql_delete, [Str lid, UserId uid])]\<rparr>)"
  by (simp add: get_lead_def put_lead_def delete_lead_def Let_def select_lead_def
      delete_lead_rows_def no_match keep_all not_found_def server_error_def)

theorem not_found_when_not_owned_witness:
  "run_by_id sample_pg sample_db (sql_select_lead, [Str ''2'', UserId 1]) ''2'' \<and>
   run_by_id sample_pg sample_db (sql_select_id, [Str ''2'', UserId 1]) ''2'' \<and>
   run_by_id sample_pg sample_db (sql_delete, [Str ''2'', UserId 1]) ''2'' \<and>
   list_all (\<lambda>r. \<not> id_and_owner sample_pg ''2'' 1 r) (leads_table sample_db) \<and>
   int_in sample_pg ''2'' = Some (lead_id lead_of_bob) \<and>
   lead_of_bob \<in> set (leads_table sample_db) \<and>
   status (response (get_lead sample_pg sample_db 1 ''2'')) = 404 \<and>
   status (response (put_lead sample_pg 30 sample_db 1 ''2'' sample_body)) = 404 \<and>
   status (response (delete_lead sample_pg sample_db 1 ''2'')) = 404 \<and>
   store (delete_lead sample_pg sample_db 1 ''2'') = sample_db \<and>
   \<not> run_by_id sample_pg sample_db (sql_select_lead, [Str ''abc'', UserId 1]) ''abc'' \<and>
   status (response (get_lead sample_pg sample_db 1 ''abc'')) = 500"
proof -
  have run: "run_by_id sample_pg sample_db (sql_select_lead, [Str ''2'', UserId 1]) ''2''"
    "run_by_id sample_pg sample_db (sql_select_id, [Str ''2'', UserId 1]) ''2''"
    "run_by_id sample_pg sample_db (sql_delete, [Str ''2'', UserId 1]) ''2''"
    by code_simp+
  have none: "list_all (\<lambda>r. \<not> id_and_owner sample_pg ''2'' 1 r) (leads_table sample_db)"
    by code_simp
  have bob: "int_in sample_pg ''2'' = Some (lead_id lead_of_bob)"
    "lead_of_bob \<in> set (leads_table sample_db)"
    by code_simp+
  have norun: "\<not> run_by_id sample_pg sample_db (sql_select_lead, [Str ''abc'', UserId 1]) ''abc''"
    by code_simp
  note inst = not_found_when_not_owned [where pg = sample_pg and d = sample_db and uid = "1::nat"
      and now = 30 and b = sample_body]
  from none have none': "\<forall>r\<in>set (leads_table sample_db). \<not> id_and_owner sample_pg ''2'' 1 r"
    by (simp add: list_all_iff)
  have a: "status (response (get_lead sample_pg sample_db 1 ''2'')) = 404"
    using inst [where lid = "''2''"] run none' by simp
  have b: "status (response (put_lead sample_pg 30 sample_db 1 ''2'' sample_body)) = 404"
    using inst [where lid = "''2''"] run none' by simp
  have c: "status (response (delete_lead sample_pg sample_db 1 ''2'')) = 404"
    "store (delete_lead sample_pg sample_db 1 ''2'') = sample_db"
    using inst [where lid = "''2''"] run none' by simp_all
  have e: "status (response (get_lead sample_pg sample_db 1 ''abc'')) = 500"
    using inst [where lid = "''abc''"] norun by simp
  from run none bob a b c norun e show ?thesis by simp
qed

section \<open>Required fields\<close>

lemma missing_or_empty:
  assumes "k = ''first_name'' \<or> k = ''last_name'' \<or> k = ''email''"
    and "b k = None \<or> b k = Some (Str [])"
  shows "missing_required b"
  using assms by (auto simp: missing_required_def body_prop_def)

text \<open>
  C3. When \<open>first_name\<close>, \<open>last_name\<close> or \<open>email\<close> is missing from the body or is the
  empty string, \<open>POST /leads\<close> answers 400 and runs no statement, so nothing is inserted;
  \<open>PUT /leads/:id\<close> on a lead the caller owns (the existence check runs and finds it)
  answers 400 and leaves the table as it was.
\<close>

theorem required_fields_rejected:
  "((k = ''first_name'' \<or> k = ''last_name'' \<or> k = ''email'') \<and>
    (b k = None \<or> b k = Some (Str [])) \<longrightarrow>
      post_lead pg now d uid b =
        \<lparr>response =
           \<lparr>status = 400, body = ErrorBody ''first_name, last_name, and email are required''\<rparr>,
         store = d, queries = []\<rparr>) \<and>
   ((k = ''first_name'' \<or> k = ''last_name'' \<or> k = ''email'') \<and>
    (b k = None \<or> b k = Some (Str [])) \<and>
    run_by_id pg d (sql_select_id, [Str lid, UserId uid]) lid \<and>
    (\<exists>r\<in>set (leads_table d). id_and_owner pg lid uid r) \<longrightarrow>
      response (put_lead pg now d uid lid b) =
        \<lparr>status = 400, body = ErrorBody ''first_name, last_name, and email are required''\<rparr> \<and>
      store (put_lead pg now d uid lid b) = d)"
proof -
  have post: "post_lead pg now d uid b =
        \<lparr>response =
           \<lparr>status = 400, body = ErrorBody ''first_name, last_name, and email are required''\<rparr>,
         store = d, queries = []\<rparr>" if "missing_required b"
    using that by (simp add: post_lead_def bad_request_def)
  have put: "response (put_lead pg now d uid lid b) =
        \<lparr>status = 400, body = ErrorBody ''first_name, last_name, and email are required''\<rparr> \<and>
      store (put_lead pg now d uid lid b) = d"
    if miss: "missing_required b"
      and run: "run_by_id pg d (sql_select_id, [Str lid, UserId uid]) lid"
      and own: "\<exists>r\<in>set (leads_table d). id_and_owner pg lid uid r"
  proof -
    from own have "filter (id_and_owner pg lid uid) (leads_table d) \<noteq> []"
      by (auto simp: filter_empty_conv)
    then obtain r rs where "filter (id_and_owner pg lid uid) (leads_table d) = r # rs"
      by (cases "filter (id_and_owner pg lid uid) (leads_table d)") auto
    with run miss have "put_lead pg now d uid lid b =
        \<lparr>response = bad_request, store = d, queries = [(sql_select_id, [Str lid, UserId uid])]\<rparr>"
      by (simp add: put_lead_def Let_def select_lead_def)
    then show ?thesis by (simp add: bad_request_def)
  qed
  show ?thesis
    using post put missing_or_empty [of k b] by blast
qed

theorem required_fields_rejected_witness:
  "[''first_name'' \<mapsto> Str ''Ada'', ''last_name'' \<mapsto> Str ''Lovelace'', ''email'' \<mapsto> Str []]
      ''email'' = Some (Str [] :: nat jsval) \<and>
   run_by_id sample_pg sample_db (sql_select_id, [Str ''1'', UserId 1]) ''1'' \<and>
   id_and_owner sample_pg ''1'' 1 lead_of_ada \<and>
   lead_of_ada \<in> set (leads_table sample_db) \<and>
   status (response (post_lead sample_pg 30 sample_db 1
     [''first_name'' \<mapsto> Str ''Ada'', ''last_name'' \<mapsto> Str ''Lovelace'', ''email'' \<mapsto> Str []])) = 400 \<and>
   store (post_lead sample_pg 30 sample_db 1
     [''first_name'' \<mapsto> Str ''Ada'', ''last_name'' \<mapsto> Str ''Lovelace'', ''email'' \<mapsto> Str []]) =
     sample_db \<and>
   status (response (put_lead sample_pg 30 sample_db 1 ''1''
     [''first_name'' \<mapsto> Str ''Ada'', ''last_name'' \<mapsto> Str ''Lovelace'', ''email'' \<mapsto> Str []])) = 400 \<and>
   store (put_lead sample_pg 30 sample_db 1 ''1''
     [''first_name'' \<mapsto> Str ''Ada'', ''last_name'' \<mapsto> Str ''Lovelace'', ''email'' \<mapsto> Str []]) =
     sample_db"
proof -
  let ?b = "[''first_name'' \<mapsto> Str ''Ada'', ''last_name'' \<mapsto> Str ''Lovelace'',
             ''email'' \<mapsto> Str []] :: nat body_in"
  have empty: "?b ''email'' = Some (Str [])" by simp
  have run: "run_by_id sample_pg sample_db (sql_select_id, [Str ''1'', UserId 1]) ''1''"
    by code_simp
  have own: "id_and_owner sample_pg ''1'' 1 lead_of_ada"
    "lead_of_ada \<in> set (leads_table sample_db)"
    by code_simp+
  note inst = required_fields_rejected [where k = "''email''" and b = ?b and pg = sample_pg
      and now = 30 and d = sample_db and uid = "1::nat" and lid = "''1''"]
  have post: "post_lead sample_pg 30 sample_db 1 ?b =
        \<lparr>response =
           \<lparr>status = 400, body = ErrorBody ''first_name, last_name, and email are required''\<rparr>,
         store = sample_db, queries = []\<rparr>"
    using inst empty by blast
  have put: "response (put_lead sample_pg 30 sample_db 1 ''1'' ?b) =
        \<lparr>status = 400, body = ErrorBody ''first_name, last_name, and email are required''\<rparr> \<and>
      store (put_lead sample_pg 30 sample_db 1 ''1'' ?b) = sample_db"
    using inst empty run own by blast
  from empty run own post put show ?thesis by simp
qed

section \<open>The order of the steps\<close>

text \<open>
  C4, as stated, at \<open>PUT /leads/:id\<close> with an empty body: the required fields are missing,
  yet a statement has run (the existence check), and when the lead is not the caller's the
  answer is 404, not 400. The check of the required fields is not the first step.
\<close>

theorem put_validates_after_select_counterexample:
  "missing_required (Map.empty :: nat body_in) \<and>
   queries (put_lead sample_pg 30 sample_db 1 ''1'' Map.empty) =
     [(''SELECT id FROM leads WHERE id = $1 AND user_id = $2'', [Str ''1'', UserId 1])] \<and>
   status (response (put_lead sample_pg 30 sample_db 1 ''1'' Map.empty)) = 400 \<and>
   status (response (put_lead sample_pg 30 sample_db 1 ''2'' Map.empty)) = 404"
  by code_simp

text \<open>
  C4, amended. Authorization comes first on every route: when the middleware answers the
  request itself the handler does not run and no statement is issued; otherwise the handler
  runs with the resolved user id. \<open>POST /leads\<close> checks the required fields before its only
  statement. \<open>PUT /leads/:id\<close> runs its existence check first and checks the required fields
  after it; the \<open>UPDATE\<close> is issued only when the fields are present. The other three
  handlers have no field check: \<open>GET /leads\<close> issues the count and then the list statement,
  \<open>GET /leads/:id\<close> and \<open>DELETE /leads/:id\<close> one statement each.
\<close>

theorem handler_step_order:
  "(auth tok = Inl r \<longrightarrow>
      route_get_leads auth pg Number d tok q = \<lparr>response = r, store = d, queries = []\<rparr> \<and>
      route_get_lead auth pg d tok lid = \<lparr>response = r, store = d, queries = []\<rparr> \<and>
      route_post_lead auth pg now d tok b = \<lparr>response = r, store = d, queries = []\<rparr> \<and>
      route_put_lead auth pg now d tok lid b = \<lparr>response = r, store = d, queries = []\<rparr> \<and>
      route_delete_lead auth pg d tok lid = \<lparr>response = r, store = d, queries = []\<rparr>) \<and>
   (auth tok = Inr uid \<longrightarrow>
      route_get_leads auth pg Number d tok q = get_leads pg Number d uid q \<and>
      route_get_lead auth pg d tok lid = get_lead pg d uid lid \<and>
      route_post_lead auth pg now d tok b = post_lead pg now d uid b \<and>
      route_put_lead auth pg now d tok lid b = put_lead pg now d uid lid b \<and>
      route_delete_lead auth pg d tok lid = delete_lead pg d uid lid) \<and>
   (missing_required b \<longrightarrow>
      post_lead pg now d uid b = \<lparr>response = bad_request, store = d, queries = []\<rparr>) \<and>
   (\<not> missing_required b \<longrightarrow>
      queries (post_lead pg now d uid b) = [(sql_insert, UserId uid # column_values b)]) \<and>
   (queries (put_lead pg now d uid lid b) = [(sql_select_id, [Str lid, UserId uid])] \<or>
    (\<not> missing_required b \<and>
     queries (put_lead pg now d uid lid b) =
       [(sql_select_id, [Str lid, UserId uid]),
        (sql_update, column_values b @ [Str lid, UserId uid])])) \<and>
   (queries (get_leads pg Number d uid q) = [count_statement (buildWhereClause Number uid q)] \<or>
    queries (get_leads pg Number d uid q) =
      [count_statement (buildWhereClause Number uid q),
       list_statement (buildWhereClause Number uid q) (limit_of q) (offset_of q)]) \<and>
   queries (get_lead pg d uid lid) = [(sql_select_lead, [Str lid, UserId uid])] \<and>
   queries (delete_lead pg d uid lid) = [(sql_delete, [Str lid, UserId uid])]"
proof -
  have routes_reject: "auth tok = Inl r \<Longrightarrow>
      route_get_leads auth pg Number d tok q = \<lparr>response = r, store = d, queries = []\<rparr> \<and>
      route_get_lead auth pg d tok lid = \<lparr>response = r, store = d, queries = []\<rparr> \<and>
      route_post_lead auth pg now d tok b = \<lparr>response = r, store = d, queries = []\<rparr> \<and>
      route_put_lead auth pg now d tok lid b = \<lparr>response = r, store = d, queries = []\<rparr> \<and>
      route_delete_lead auth pg d tok lid = \<lparr>response = r, store = d, queries = []\<rparr>"
    by (simp add: route_get_leads_def route_get_lead_def route_post_lead_def route_put_lead_def
        route_delete_lead_def with_auth_def)
  have routes_pass: "auth tok = Inr uid \<Longrightarrow>
      route_get_leads auth pg Number d tok q = get_leads pg Number d uid q \<and>
      route_get_lead auth pg d tok lid = get_lead pg d uid lid \<and>
      route_post_lead auth pg now d tok b = post_lead pg now d uid b \<and>
      route_put_lead auth pg now d tok lid b = put_lead pg now d uid lid b \<and>
      route_delete_lead auth pg d tok lid = delete_lead pg d uid lid"
    by (simp add: route_get_leads_def route_get_lead_def route_post_lead_def route_put_lead_def
        route_delete_lead_def with_auth_def)
  have post1: "missing_required b \<Longrightarrow>
      post_lead pg now d uid b = \<lparr>response = bad_request, store = d, queries = []\<rparr>"
    by (simp add: post_lead_def)
  have post2: "\<not> missing_required b \<Longrightarrow>
      queries (post_lead pg now d uid b) = [(sql_insert, UserId uid # column_values b)]"
    by (simp add: post_lead_def Let_def split: sum.splits prod.splits)
  have get1: "queries (get_lead pg d uid lid) = [(sql_select_lead, [Str lid, UserId uid])]"
    by (simp add: get_lead_def Let_def split: sum.splits list.splits)
  have del1: "queries (delete_lead pg d uid lid) = [(sql_delete, [Str lid, UserId uid])]"
    by (simp add: delete_lead_def Let_def split: sum.splits list.splits prod.splits)
  show ?thesis
    using routes_reject routes_pass post1 post2 get1 del1
      put_lead_queries [of pg now d uid lid b] get_leads_queries [of pg Number d uid q]
    by blast
qed

theorem handler_step_order_witness:
  "missing_required (Map.empty :: nat body_in) \<and>
   \<not> missing_required sample_body \<and>
   queries (post_lead sample_pg 30 sample_db 1 Map.empty) = [] \<and>
   queries (post_lead sample_pg 30 sample_db 1 sample_body) =
     [(sql_insert, UserId 1 # column_values sample_body)] \<and>
   queries (route_post_lead (\<lambda>t. if t = ''ada'' then Inr 1 else Inl \<lparr>status = 401, body = ErrorBody ''no''\<rparr>)
      sample_pg 30 sample_db ''eve'' sample_body) = [] \<and>
   queries (route_post_lead (\<lambda>t. if t = ''ada'' then Inr 1 else Inl \<lparr>status = 401, body = ErrorBody ''no''\<rparr>)
      sample_pg 30 sample_db ''ada'' sample_body) =
     [(sql_insert, UserId 1 # column_values sample_body)]"
proof -
  let ?auth = "\<lambda>t. if t = ''ada'' then Inr (1::nat)
                   else Inl \<lparr>status = 401, body = ErrorBody ''no''\<rparr>"
  have m1: "missing_required (Map.empty :: nat body_in)" by code_simp
  have m2: "\<not> missing_required sample_body" by code_simp
  have a1: "?auth ''eve'' = Inl \<lparr>status = 401, body = ErrorBody ''no''\<rparr>" by simp
  have a2: "?auth ''ada'' = Inr 1" by simp
  note empty = handler_step_order [where b = "Map.empty :: nat body_in" and pg = sample_pg
      and now = 30 and d = sample_db and uid = "1::nat" and auth = ?auth and tok = "''eve''"
      and r = "\<lparr>status = 401, body = ErrorBody ''no''\<rparr>" and Number = sample_Number
      and q = Map.empty and lid = "''1''"]
  note eve = handler_step_order [where b = sample_body and pg = sample_pg
      and now = 30 and d = sample_db and uid = "1::nat" and auth = ?auth and tok = "''eve''"
      and r = "\<lparr>status = 401, body = ErrorBody ''no''\<rparr>" and Number = sample_Number
      and q = Map.empty and lid = "''1''"]
  note ada = handler_step_order [where b = sample_body and pg = sample_pg
      and now = 30 and d = sample_db and uid = "1::nat" and auth = ?auth and tok = "''ada''"
      and r = "\<lparr>status = 401, body = ErrorBody ''no''\<rparr>" and Number = sample_Number
      and q = Map.empty and lid = "''1''"]
  have "post_lead sample_pg 30 sample_db 1 Map.empty =
      \<lparr>response = bad_request, store = sample_db, queries = []\<rparr>"
    using empty m1 by blast
  then have p1: "queries (post_lead sample_pg 30 sample_db 1 Map.empty) = []"
    by simp
  have p2: "queries (post_lead sample_pg 30 sample_db 1 sample_body) =
     [(sql_insert, UserId 1 # column_values sample_body)]"
    using ada m2 by blast
  have "route_post_lead ?auth sample_pg 30 sample_db ''eve'' sample_body =
      \<lparr>response = \<lparr>status = 401, body = ErrorBody ''no''\<rparr>, store = sample_db, queries = []\<rparr>"
    using eve a1 by blast
  then have r1: "queries (route_post_lead ?auth sample_pg 30 sample_db ''eve'' sample_body) = []"
    by simp
  have "route_post_lead ?auth sample_pg 30 sample_db ''ada'' sample_body =
      post_lead sample_pg 30 sample_db 1 sample_body"
    using ada a2 by blast
  with p2 have r2: "queries (route_post_lead ?auth sample_pg 30 sample_db ''ada'' sample_body) =
     [(sql_insert, UserId 1 # column_values sample_body)]"
    by simp
  from m1 m2 p1 p2 r1 r2 show ?thesis by blast
qed

section \<open>The list endpoint\<close>

lemma digit_not_special:
  assumes "is_digit c"
  shows "\<not> is_space c" and "c \<noteq> CHR ''-''" and "c \<noteq> CHR ''+''" and "c \<noteq> CHR ''x''"
    and "c \<noteq> CHR ''X''"
  using assms by (auto simp: is_digit_def is_space_def)

lemma parseInt_digits:
  assumes digits: "list_all is_digit ds" and nonempty: "ds \<noteq> []"
  shows "parseInt ds = Some (int (read_nat ds))"
proof -
  obtain c cs where ds: "ds = c # cs" using nonempty by (cases ds) auto
  with digits have c: "is_digit c" and cs: "list_all is_digit cs" by simp_all
  have s1: "dropWhile is_space ds = ds"
    using c ds by (simp add: digit_not_special)
  have sign: "take 1 ds \<noteq> ''-''" "take 1 ds \<noteq> ''+''"
    using c ds by (auto simp: digit_not_special)
  have hex: "take 2 ds \<noteq> ''0x''" "take 2 ds \<noteq> ''0X''"
  proof -
    show "take 2 ds \<noteq> ''0x''"
    proof (cases cs)
      case Nil
      with ds show ?thesis by simp
    next
      case (Cons e es)
      with cs have "is_digit e" by simp
      with Cons ds show ?thesis by (auto simp: digit_not_special)
    qed
    show "take 2 ds \<noteq> ''0X''"
    proof (cases cs)
      case Nil
      with ds show ?thesis by simp
    next
      case (Cons e es)
      with cs have "is_digit e" by simp
      with Cons ds show ?thesis by (auto simp: digit_not_special)
    qed
  qed
  have run: "takeWhile is_digit ds = ds"
    using digits by (simp add: list_all_iff)
  show ?thesis
    unfolding parseInt_def by (simp only: s1 sign hex run Let_def nonempty if_False simp_thms)
qed

lemma parseInt_show_nat: "parseInt (show_nat n) = Some (int n)"
  using parseInt_digits [OF show_nat_digits show_nat_not_Nil, of n] by (simp add: read_show_nat)

lemma get_leads_payload:
  assumes "body (response (get_leads pg Number d uid q)) = ListBody p"
  shows "p = list_payload
               (take (nat (limit_of q)) (drop (nat (offset_of q))
                  (rev (sort_key created_at (matching pg Number d uid q)))))
               (page_of q) (limit_of q) (Some (int (length (matching pg Number d uid q))))"
  using assms
  by (auto simp: get_leads_def Let_def count_leads_def list_leads_def server_error_def
      count_statement_def parseInt_show_nat matching_def
      split: sum.splits if_splits)

lemma get_leads_success:
  assumes "status (response (get_leads pg Number d uid q)) = 200"
  shows "\<exists>p. body (response (get_leads pg Number d uid q)) = ListBody p"
  using assms
  by (auto simp: get_leads_def Let_def server_error_def split: sum.splits if_splits)


lemma page_rows_subset:
  "set (take n (drop m (rev (sort_key f xs)))) \<subseteq> set xs"
proof -
  have "set (take n (drop m (rev (sort_key f xs)))) \<subseteq> set (rev (sort_key f xs))"
    by (meson set_take_subset set_drop_subset subset_trans)
  then show ?thesis by simp
qed

text \<open>
  C5. In \<open>GET /leads\<close> the \<open>COUNT\<close> statement and the list statement carry the same
  \<open>WHERE\<close> text and the same filter values; the list statement adds only
  \<open>ORDER BY created_at DESC\<close>, \<open>LIMIT\<close> and \<open>OFFSET\<close>, bound after the filter values. The
  reported total is the number of rows that satisfy the filter, and the returned page is
  cut from exactly these rows.
\<close>

theorem count_and_list_share_filter:
  "count_statement (buildWhereClause Number uid q) =
     (''SELECT COUNT(*) FROM leads WHERE '' @ where_text (buildWhereClause Number uid q),
      bound (buildWhereClause Number uid q)) \<and>
   list_statement (buildWhereClause Number uid q) (limit_of q) (offset_of q) =
     (nl @ ''      SELECT *'' @ nl @ ''      FROM leads'' @ nl @
      ''      WHERE '' @ where_text (buildWhereClause Number uid q) @ nl @
      ''      ORDER BY created_at DESC'' @ nl @
      ''      LIMIT $'' @ show_nat (length (bound (buildWhereClause Number uid q)) + 1) @
      '' OFFSET $'' @ show_nat (length (bound (buildWhereClause Number uid q)) + 2) @ nl @ ''    '',
      bound (buildWhereClause Number uid q) @
        [num_of_int (limit_of q), num_of_int (offset_of q)]) \<and>
   (queries (get_leads pg Number d uid q) = [count_statement (buildWhereClause Number uid q)] \<or>
    queries (get_leads pg Number d uid q) =
      [count_statement (buildWhereClause Number uid q),
       list_statement (buildWhereClause Number uid q) (limit_of q) (offset_of q)]) \<and>
   (\<forall>p. body (response (get_leads pg Number d uid q)) = ListBody p \<longrightarrow>
      total p = Some (int (length (matching pg Number d uid q))) \<and>
      data p = take (nat (limit_of q)) (drop (nat (offset_of q))
                 (rev (sort_key created_at (matching pg Number d uid q)))) \<and>
      set (data p) \<subseteq> set (matching pg Number d uid q))"
proof -
  have texts: "count_statement (buildWhereClause Number uid q) =
     (''SELECT COUNT(*) FROM leads WHERE '' @ where_text (buildWhereClause Number uid q),
      bound (buildWhereClause Number uid q))"
    "list_statement (buildWhereClause Number uid q) (limit_of q) (offset_of q) =
     (nl @ ''      SELECT *'' @ nl @ ''      FROM leads'' @ nl @
      ''      WHERE '' @ where_text (buildWhereClause Number uid q) @ nl @
      ''      ORDER BY created_at DESC'' @ nl @
      ''      LIMIT $'' @ show_nat (length (bound (buildWhereClause Number uid q)) + 1) @
      '' OFFSET $'' @ show_nat (length (bound (buildWhereClause Number uid q)) + 2) @ nl @ ''    '',
      bound (buildWhereClause Number uid q) @
        [num_of_int (limit_of q), num_of_int (offset_of q)])"
    by (simp_all add: count_statement_def list_statement_def count_query_def list_query_def)
  have page: "total p = Some (int (length (matching pg Number d uid q))) \<and>
      data p = take (nat (limit_of q)) (drop (nat (offset_of q))
                 (rev (sort_key created_at (matching pg Number d uid q)))) \<and>
      set (data p) \<subseteq> set (matching pg Number d uid q)"
    if "body (response (get_leads pg Number d uid q)) = ListBody p" for p
    using get_leads_payload [OF that] page_rows_subset [of _ _ created_at]
    by (simp add: list_payload_def Let_def)
  show ?thesis
    using texts page get_leads_queries [of pg Number d uid q] by blast
qed

theorem count_and_list_share_filter_witness:
  "body (response (get_leads sample_pg sample_Number
      \<lparr>leads_table = [lead_of_ada, lead_of_bob, lead_of_ada\<lparr>lead_id := 3, created_at := 30\<rparr>],
       next_id = 4\<rparr> 1 [''limit'' \<mapsto> ''1''])) =
     ListBody
       \<lparr>data = [lead_of_ada\<lparr>lead_id := 3, created_at := 30\<rparr>], page = 1, limit = 1,
        total = Some 2, totalPages = Some 2,
        leads = [lead_of_ada\<lparr>lead_id := 3, created_at := 30\<rparr>],
        pagination = \<lparr>pagination_page = 1, pagination_limit = 1, pagination_total = Some 2,
                      pages = Some 2\<rparr>\<rparr> \<and>
   int (length (matching sample_pg sample_Number
      \<lparr>leads_table = [lead_of_ada, lead_of_bob, lead_of_ada\<lparr>lead_id := 3, created_at := 30\<rparr>],
       next_id = 4\<rparr> 1 [''limit'' \<mapsto> ''1''])) = 2"
proof -
  let ?d = "\<lparr>leads_table = [lead_of_ada, lead_of_bob, lead_of_ada\<lparr>lead_id := 3, created_at := 30\<rparr>],
             next_id = 4\<rparr>"
  let ?p = "\<lparr>data = [lead_of_ada\<lparr>lead_id := 3, created_at := 30\<rparr>], page = 1, limit = 1,
        total = Some 2, totalPages = Some 2,
        leads = [lead_of_ada\<lparr>lead_id := 3, created_at := 30\<rparr>],
        pagination = \<lparr>pagination_page = 1, pagination_limit = 1, pagination_total = Some 2,
                      pages = Some 2\<rparr>\<rparr>"
  have run: "body (response (get_leads sample_pg sample_Number ?d 1 [''limit'' \<mapsto> ''1''])) =
      ListBody ?p"
    by code_simp
  from count_and_list_share_filter [of sample_Number 1 "[''limit'' \<mapsto> ''1'']" sample_pg ?d] run
  have "total ?p = Some (int (length (matching sample_pg sample_Number ?d 1 [''limit'' \<mapsto> ''1''])))"
    by blast
  then have "int (length (matching sample_pg sample_Number ?d 1 [''limit'' \<mapsto> ''1''])) = 2"
    by simp
  with run show ?thesis by simp
qed

text \<open>
  C7. Every successful \<open>GET /leads\<close> response carries the list payload, with both
  shapes in agreement: \<open>leads\<close> is the \<open>data\<close> array, \<open>pagination\<close> is
  \<open>{page, limit, total, pages}\<close> with the payload's \<open>page\<close>, \<open>limit\<close> and \<open>total\<close> and with
  \<open>pages\<close> equal to \<open>totalPages\<close>, and \<open>totalPages\<close> is \<open>total / limit\<close> rounded up.
\<close>

theorem list_envelope_shapes_agree:
  "(status (response (get_leads pg Number d uid q)) = 200 \<longrightarrow>
      (\<exists>p. body (response (get_leads pg Number d uid q)) = ListBody p)) \<and>
   (\<forall>p. body (response (get_leads pg Number d uid q)) = ListBody p \<longrightarrow>
      leads p = data p \<and>
      pagination p =
        \<lparr>pagination_page = page p, pagination_limit = limit p, pagination_total = total p,
         pages = totalPages p\<rparr> \<and>
      pages (pagination p) = totalPages p \<and>
      (\<exists>n. total p = Some n \<and> totalPages p = Some \<lceil>(of_int n :: rat) / of_int (limit p)\<rceil>))"
proof -
  have shape: "leads p = data p \<and>
      pagination p =
        \<lparr>pagination_page = page p, pagination_limit = limit p, pagination_total = total p,
         pages = totalPages p\<rparr> \<and>
      pages (pagination p) = totalPages p \<and>
      (\<exists>n. total p = Some n \<and> totalPages p = Some \<lceil>(of_int n :: rat) / of_int (limit p)\<rceil>)"
    if "body (response (get_leads pg Number d uid q)) = ListBody p" for p
    using get_leads_payload [OF that] by (simp add: list_payload_def Let_def ceil_div_def)
  show ?thesis
    using shape get_leads_success [of pg Number d uid q] by blast
qed


theorem list_envelope_shapes_agree_witness:
  "status (response (get_leads sample_pg sample_Number sample_db 1 [''limit'' \<mapsto> ''1''])) = 200 \<and>
   body (response (get_leads sample_pg sample_Number sample_db 1 [''limit'' \<mapsto> ''1''])) =
     ListBody
       \<lparr>data = [lead_of_ada], page = 1, limit = 1, total = Some 1, totalPages = Some 1,
        leads = [lead_of_ada],
        pagination = \<lparr>pagination_page = 1, pagination_limit = 1, pagination_total = Some 1,
                      pages = Some 1\<rparr>\<rparr>"
proof -
  let ?p = "\<lparr>data = [lead_of_ada], page = 1, limit = 1, total = Some 1, totalPages = Some 1,
        leads = [lead_of_ada],
        pagination = \<lparr>pagination_page = 1, pagination_limit = 1, pagination_total = Some 1,
                      pages = Some 1\<rparr>\<rparr>"
  have ok: "status (response (get_leads sample_pg sample_Number sample_db 1 [''limit'' \<mapsto> ''1''])) = 200"
    by code_simp
  have data: "data ?p = [lead_of_ada]" by simp
  from list_envelope_shapes_agree [of sample_pg sample_Number sample_db 1 "[''limit'' \<mapsto> ''1'']"] ok
  obtain p where p: "body (response (get_leads sample_pg sample_Number sample_db 1
      [''limit'' \<mapsto> ''1''])) = ListBody p"
    and shape: "leads p = data p"
      "pagination p = \<lparr>pagination_page = page p, pagination_limit = limit p,
         pagination_total = total p, pages = totalPages p\<rparr>"
    by blast
  have "body (response (get_leads sample_pg sample_Number sample_db 1 [''limit'' \<mapsto> ''1''])) =
      ListBody ?p"
    by code_simp
  with ok show ?thesis by simp
qed

section \<open>Paging\<close>







section \<open>The default status\<close>






end
